theory Spec2Isabelle
  imports Main "HOL-Library.Multiset" "HOL-Library.Word" "HOL-Library.Log_Nat"
begin

section \<open>JavaScript values and objects\<close>

text \<open>
  The synchronization layer (\<^verbatim>\<open>lib/firestore.ts\<close>) moves plain JavaScript objects between the
  view controllers and the document store. A value is one of the shapes that occur in the
  source: \<^verbatim>\<open>undefined\<close>, \<^verbatim>\<open>null\<close>, strings, numbers, booleans, arrays, a JavaScript
  \<^verbatim>\<open>Date\<close> (milliseconds since the epoch, or invalid), a store \<^verbatim>\<open>Timestamp\<close> (the only value with a
  \<^verbatim>\<open>toDate\<close> method), and the two write sentinels \<^verbatim>\<open>serverTimestamp()\<close> and
  \<^verbatim>\<open>arrayUnion(...)\<close>. An object is its list of own properties in insertion order.
\<close>

datatype jsval =
    Undefined
  | Null
  | Str string
  | Num int
  | Bool bool
  | Arr "jsval list"
  | Date int
  | InvalidDate
  | Timestamp int
  | ServerTimestamp
  | ArrayUnion "jsval list"

type_synonym obj = "(string \<times> jsval) list"

text \<open>Property read \<^verbatim>\<open>o.k\<close>: a missing property reads as \<^verbatim>\<open>undefined\<close>.\<close>

definition field :: "obj \<Rightarrow> string \<Rightarrow> jsval" where
  "field ob k = (case map_of ob k of None \<Rightarrow> Undefined | Some v \<Rightarrow> v)"

text \<open>
  One property of an object literal \<^verbatim>\<open>{ ...o, k: v }\<close>: an existing property keeps its
  place and takes the new value, a new one is appended. \<^verbatim>\<open>Map.prototype.set\<close> treats the
  entries of a \<^verbatim>\<open>Map\<close> the same way.
\<close>

fun put :: "'k \<Rightarrow> 'v \<Rightarrow> ('k \<times> 'v) list \<Rightarrow> ('k \<times> 'v) list" where
  "put k v [] = [(k, v)]"
| "put k v ((k', v') # ob) = (if k' = k then (k, v) # ob else (k', v') # put k v ob)"

text \<open>
  \<^verbatim>\<open>x?.toDate?.() || new Date()\<close>: only a store timestamp has \<^verbatim>\<open>toDate\<close>; for every other
  value the optional chain is \<^verbatim>\<open>undefined\<close> and the clock reading \<open>now\<close> is taken.
\<close>

fun toDate_or_now :: "int \<Rightarrow> jsval \<Rightarrow> jsval" where
  "toDate_or_now now (Timestamp t) = Date t"
| "toDate_or_now now v = Date now"

text \<open>
  \<^verbatim>\<open>new Date(x).getTime()\<close>. In the subscriptions the argument is always a \<^verbatim>\<open>Date\<close> (it was
  produced by \<open>toDate_or_now\<close>), for which the result is its millisecond value; a number is
  taken as milliseconds and \<^verbatim>\<open>null\<close> is the epoch. The remaining shapes are not reached by
  the code modelled here.
\<close>

fun getTime :: "jsval \<Rightarrow> int" where
  "getTime (Date t) = t"
| "getTime (Num n) = n"
| "getTime v = 0"

section \<open>Array.prototype.sort\<close>

text \<open>
  \<^verbatim>\<open>xs.sort(cmp)\<close> is a stable sort: an element moves in front of another only if the
  comparator says so. For a comparator that is a difference of keys the result of a stable
  sort is unique, and it is the one computed by stable insertion.
\<close>

fun js_insert :: "('a \<Rightarrow> 'a \<Rightarrow> int) \<Rightarrow> 'a \<Rightarrow> 'a list \<Rightarrow> 'a list" where
  "js_insert cmp x [] = [x]"
| "js_insert cmp x (y # ys) = (if cmp x y \<le> 0 then x # y # ys else y # js_insert cmp x ys)"

definition js_sort :: "('a \<Rightarrow> 'a \<Rightarrow> int) \<Rightarrow> 'a list \<Rightarrow> 'a list" where
  "js_sort cmp xs = foldr (js_insert cmp) xs []"

text \<open>The two comparators of the source, by the time value of a property.\<close>

definition ascending :: "string \<Rightarrow> obj \<Rightarrow> obj \<Rightarrow> int" where
  "ascending k a b = getTime (field a k) - getTime (field b k)"

definition descending :: "string \<Rightarrow> obj \<Rightarrow> obj \<Rightarrow> int" where
  "descending k a b = getTime (field b k) - getTime (field a k)"

section \<open>Snapshot handlers of the subscriptions\<close>

text \<open>
  Each handler maps the documents of a snapshot to domain records, normalising timestamps,
  sorts them and hands the whole sequence to the callback. \<open>clock n\<close> is what \<^verbatim>\<open>new Date()\<close>
  returns at the \<open>n\<close>-th timestamp expression evaluated while the handler runs: there is one
  reading available per timestamp property of each document, in document order (the reading
  is used only where the stored value is not a timestamp).
\<close>

definition normalise :: "(nat \<Rightarrow> int) \<Rightarrow> string list \<Rightarrow> obj list \<Rightarrow> obj list" where
  "normalise clock ks docs =
     map (\<lambda>(i, d). foldl (\<lambda>ob (j, k). put k (toDate_or_now (clock (i * length ks + j)) (field d k)) ob)
                      d (enumerate 0 ks))
         (enumerate 0 docs)"

definition tasks_snapshot :: "(nat \<Rightarrow> int) \<Rightarrow> obj list \<Rightarrow> obj list" where
  "tasks_snapshot clock docs =
     js_sort (descending ''last_updated'') (normalise clock [''last_updated''] docs)"

definition messages_snapshot :: "(nat \<Rightarrow> int) \<Rightarrow> obj list \<Rightarrow> obj list" where
  "messages_snapshot clock docs =
     js_sort (ascending ''timestamp'') (normalise clock [''timestamp''] docs)"

definition milestones_snapshot :: "(nat \<Rightarrow> int) \<Rightarrow> obj list \<Rightarrow> obj list" where
  "milestones_snapshot clock docs =
     js_sort (ascending ''deadline'') (normalise clock [''deadline'', ''created_at''] docs)"

definition schedule_events_snapshot :: "(nat \<Rightarrow> int) \<Rightarrow> obj list \<Rightarrow> obj list" where
  "schedule_events_snapshot clock docs =
     js_sort (ascending ''start_time'')
       (normalise clock [''start_time'', ''end_time'', ''created_at''] docs)"

definition resources_snapshot :: "(nat \<Rightarrow> int) \<Rightarrow> obj list \<Rightarrow> obj list" where
  "resources_snapshot clock docs = normalise clock [''created_at''] docs"

definition activities_snapshot :: "(nat \<Rightarrow> int) \<Rightarrow> obj list \<Rightarrow> obj list" where
  "activities_snapshot clock docs =
     take 50 (js_sort (descending ''timestamp'') (normalise clock [''timestamp''] docs))"

definition notifications_snapshot :: "(nat \<Rightarrow> int) \<Rightarrow> obj list \<Rightarrow> obj list" where
  "notifications_snapshot clock docs =
     js_sort (descending ''created_at'') (normalise clock [''created_at''] docs)"

definition newest_first :: "string \<Rightarrow> obj \<Rightarrow> obj \<Rightarrow> bool" where
  "newest_first k a b \<longleftrightarrow> getTime (field b k) \<le> getTime (field a k)"

definition oldest_first :: "string \<Rightarrow> obj \<Rightarrow> obj \<Rightarrow> bool" where
  "oldest_first k a b \<longleftrightarrow> getTime (field a k) \<le> getTime (field b k)"

section \<open>Subscriptions\<close>

text \<open>
  \<^verbatim>\<open>onSnapshot(target, next, error?)\<close> registers a listener on a query or on one document.
  What a subscription does is recorded as a list of actions: opening a listener, invoking
  the caller's callback with a sequence, and writing to the error console. \<open>db\<close> tells
  whether \<^verbatim>\<open>getDb()\<close> finds the database handle; when it does not, \<^verbatim>\<open>getDb()\<close> throws and
  the \<^verbatim>\<open>catch\<close> branch of the subscription runs.
\<close>

datatype clause = Eq string jsval | ArrayContains string jsval

datatype target = Query string "clause list" | Doc string string

datatype action = Listen target | Callback "obj list" | LogError

record listener =
  source :: target
  on_next :: "(nat \<Rightarrow> int) \<Rightarrow> obj list \<Rightarrow> action list"
  on_error :: "action list option"

type_synonym subscription = "action list \<times> listener option"

definition listening :: "listener \<Rightarrow> subscription" where
  "listening L = ([Listen (source L)], Some L)"

definition subscribeToTasks :: "bool \<Rightarrow> string \<Rightarrow> subscription" where
  "subscribeToTasks db projectId =
     (if db then listening
        \<lparr>source = Query ''tasks'' [Eq ''project_id'' (Str projectId)],
         on_next = (\<lambda>clock docs. [Callback (tasks_snapshot clock docs)]),
         on_error = Some [LogError, Callback []]\<rparr>
      else ([Callback []], None))"

definition subscribeToMessages :: "bool \<Rightarrow> string \<Rightarrow> subscription" where
  "subscribeToMessages db projectId =
     (if db then listening
        \<lparr>source = Query ''messages'' [Eq ''project_id'' (Str projectId)],
         on_next = (\<lambda>clock docs. [Callback (messages_snapshot clock docs)]),
         on_error = Some [LogError, Callback []]\<rparr>
      else ([Callback []], None))"

definition subscribeToMilestones :: "bool \<Rightarrow> string \<Rightarrow> subscription" where
  "subscribeToMilestones db projectId =
     (if db then listening
        \<lparr>source = Query ''milestones'' [Eq ''project_id'' (Str projectId)],
         on_next = (\<lambda>clock docs. [Callback (milestones_snapshot clock docs)]),
         on_error = Some [LogError, Callback []]\<rparr>
      else ([Callback []], None))"

definition subscribeToScheduleEvents :: "bool \<Rightarrow> string \<Rightarrow> string \<Rightarrow> subscription" where
  "subscribeToScheduleEvents db projectId userId =
     (if db then listening
        \<lparr>source = Query ''schedule_events''
                   [Eq ''project_id'' (Str projectId), Eq ''user_id'' (Str userId)],
         on_next = (\<lambda>clock docs. [Callback (schedule_events_snapshot clock docs)]),
         on_error = Some [LogError, Callback []]\<rparr>
      else ([Callback []], None))"

text \<open>The three subscriptions below pass no error handler to \<^verbatim>\<open>onSnapshot\<close>.\<close>

definition subscribeToResources :: "bool \<Rightarrow> string \<Rightarrow> subscription" where
  "subscribeToResources db projectId =
     (if db then listening
        \<lparr>source = Query ''shared_resources'' [Eq ''project_id'' (Str projectId)],
         on_next = (\<lambda>clock docs. [Callback (resources_snapshot clock docs)]),
         on_error = None\<rparr>
      else ([Callback []], None))"

definition subscribeToActivities :: "bool \<Rightarrow> string \<Rightarrow> subscription" where
  "subscribeToActivities db projectId =
     (if db then listening
        \<lparr>source = Query ''live_activities'' [Eq ''project_id'' (Str projectId)],
         on_next = (\<lambda>clock docs. [Callback (activities_snapshot clock docs)]),
         on_error = None\<rparr>
      else ([Callback []], None))"

definition subscribeToNotifications :: "bool \<Rightarrow> string \<Rightarrow> string \<Rightarrow> subscription" where
  "subscribeToNotifications db projectId userId =
     (if db then listening
        \<lparr>source = Query ''team_notifications''
                   [Eq ''project_id'' (Str projectId), Eq ''user_id'' (Str userId)],
         on_next = (\<lambda>clock docs. [Callback (notifications_snapshot clock docs)]),
         on_error = None\<rparr>
      else ([Callback []], None))"

text \<open>
  The change stream of a query listener: each snapshot carries the documents of the result
  set and the clock readings taken while its handler runs. After an error the store sends
  nothing more to the listener; a listener without an error handler ignores the error.
\<close>

datatype event = Snapshot "nat \<Rightarrow> int" "obj list" | StreamError

fun deliver :: "listener \<Rightarrow> event list \<Rightarrow> action list" where
  "deliver L [] = []"
| "deliver L (Snapshot clock docs # evs) = on_next L clock docs @ deliver L evs"
| "deliver L (StreamError # evs) = (case on_error L of None \<Rightarrow> [] | Some acts \<Rightarrow> acts)"

text \<open>Everything a subscription does, from the call on, for a given change stream.\<close>

definition run :: "subscription \<Rightarrow> event list \<Rightarrow> action list" where
  "run sub evs = fst sub @ (case snd sub of None \<Rightarrow> [] | Some L \<Rightarrow> deliver L evs)"

section \<open>Member subscription\<close>

text \<open>
  \<^verbatim>\<open>subscribeToProjectMembers\<close> opens one document listener per entry of \<^verbatim>\<open>memberIds\<close> and
  keeps one \<^verbatim>\<open>Map\<close> for all of them. An event is addressed to the listener with the given
  position in \<^verbatim>\<open>memberIds\<close>: a snapshot of the user document (its data, or nothing when the
  document does not exist) or a stream error. The listeners' streams are merged into one
  sequence, in the order in which the single thread handles them. The store sends nothing
  more to a listener after its error; the sequences admitted here are not restricted in that
  way, so what is proved for all of them holds for the real streams.
\<close>

datatype member_event = DocSnapshot nat "obj option" | DocError nat

definition member_next :: "string \<Rightarrow> obj option \<Rightarrow> (string \<times> obj) list \<Rightarrow> (string \<times> obj) list \<times> action list" where
  "member_next uid d membersMap =
     (case d of
        Some data \<Rightarrow> (let m = put uid data membersMap in (m, [Callback (map snd m)]))
      | None \<Rightarrow> (membersMap, []))"

fun member_step :: "string list \<Rightarrow> (string \<times> obj) list \<Rightarrow> member_event \<Rightarrow> (string \<times> obj) list \<times> action list" where
  "member_step ids m (DocSnapshot n d) = (if n < length ids then member_next (ids ! n) d m else (m, []))"
| "member_step ids m (DocError n) = (if n < length ids then (m, [LogError]) else (m, []))"

definition members_map :: "string list \<Rightarrow> (string \<times> obj) list \<Rightarrow> member_event list \<Rightarrow> (string \<times> obj) list" where
  "members_map ids m evs = foldl (\<lambda>m e. fst (member_step ids m e)) m evs"

fun members_actions :: "string list \<Rightarrow> (string \<times> obj) list \<Rightarrow> member_event list \<Rightarrow> action list" where
  "members_actions ids m [] = []"
| "members_actions ids m (e # evs) =
     snd (member_step ids m e) @ members_actions ids (fst (member_step ids m e)) evs"

definition subscribeToProjectMembers :: "bool \<Rightarrow> string list \<Rightarrow> member_event list \<Rightarrow> action list" where
  "subscribeToProjectMembers db memberIds evs =
     (if db then map (\<lambda>uid. Listen (Doc ''users'' uid)) memberIds @ members_actions memberIds [] evs
      else [Callback []])"


text \<open>The arguments of the callback invocations among a list of actions.\<close>

fun callbacks :: "action list \<Rightarrow> obj list list" where
  "callbacks [] = []"
| "callbacks (Callback xs # acts) = xs # callbacks acts"
| "callbacks (a # acts) = callbacks acts"

section \<open>Promises and bounded waiting\<close>

text \<open>
  A promise, seen from the call that created it: it resolves with a value or rejects, a
  number of milliseconds after the call, or it never settles. \<^verbatim>\<open>Promise.race\<close> settles as
  the first of its arguments to settle (the earlier-listed one when both settle in the same
  millisecond), \<^verbatim>\<open>.catch(() => fallback)\<close> turns a rejection into the fallback, and
  \<^verbatim>\<open>withTimeout\<close> races the promise against a timer that resolves with the fallback.
\<close>

datatype 'a promise = Resolved nat 'a | Rejected nat | Pending

fun settled_at :: "'a promise \<Rightarrow> nat option" where
  "settled_at (Resolved t v) = Some t"
| "settled_at (Rejected t) = Some t"
| "settled_at Pending = None"

definition race :: "'a promise \<Rightarrow> 'a promise \<Rightarrow> 'a promise" where
  "race p q =
     (case settled_at p of
        None \<Rightarrow> q
      | Some a \<Rightarrow> (case settled_at q of None \<Rightarrow> p | Some b \<Rightarrow> if a \<le> b then p else q))"

definition catch_fallback :: "'a \<Rightarrow> 'a promise \<Rightarrow> 'a promise" where
  "catch_fallback fallback p = (case p of Rejected t \<Rightarrow> Resolved t fallback | _ \<Rightarrow> p)"

definition withTimeout :: "'a promise \<Rightarrow> nat \<Rightarrow> 'a \<Rightarrow> 'a promise" where
  "withTimeout promise ms fallback = catch_fallback fallback (race promise (Resolved ms fallback))"

section \<open>The document store\<close>

text \<open>
  The store holds documents under references (collection, document id). A request is
  answered by the store after some time, fails after some time, or gets no reply at all.
  Reads return what the store holds; a query returns the documents of a collection that
  satisfy all its clauses.
\<close>

type_synonym ref = "string \<times> string"

type_synonym store = "(ref \<times> obj) list"

datatype reply = Answers nat | Errors nat | Silent

fun matches :: "obj \<Rightarrow> clause \<Rightarrow> bool" where
  "matches d (Eq k v) = (field d k = v)"
| "matches d (ArrayContains k v) = (case field d k of Arr xs \<Rightarrow> v \<in> set xs | _ \<Rightarrow> False)"

definition run_query :: "store \<Rightarrow> string \<Rightarrow> clause list \<Rightarrow> (ref \<times> obj) list" where
  "run_query s c cls = filter (\<lambda>(r, d). fst r = c \<and> list_all (matches d) cls) s"

definition getDoc :: "reply \<Rightarrow> store \<Rightarrow> ref \<Rightarrow> obj option promise" where
  "getDoc rp s r =
     (case rp of Answers t \<Rightarrow> Resolved t (map_of s r) | Errors t \<Rightarrow> Rejected t | Silent \<Rightarrow> Pending)"

definition getDocs :: "reply \<Rightarrow> store \<Rightarrow> string \<Rightarrow> clause list \<Rightarrow> (ref \<times> obj) list promise" where
  "getDocs rp s c cls =
     (case rp of Answers t \<Rightarrow> Resolved t (run_query s c cls) | Errors t \<Rightarrow> Rejected t
      | Silent \<Rightarrow> Pending)"

text \<open>
  Writes. The store replaces the sentinel \<^verbatim>\<open>serverTimestamp()\<close> by its own time, keeps a
  \<^verbatim>\<open>Date\<close> as a timestamp, and for \<^verbatim>\<open>arrayUnion\<close> appends the elements not yet in the array.
  \<^verbatim>\<open>set\<close> replaces the document, \<^verbatim>\<open>update\<close> changes the given fields of an existing
  document, \<^verbatim>\<open>delete\<close> removes it.
\<close>

datatype mutation = SetDoc ref obj | UpdateDoc ref obj | DeleteDoc ref

fun target_of :: "mutation \<Rightarrow> ref" where
  "target_of (SetDoc r d) = r"
| "target_of (UpdateDoc r d) = r"
| "target_of (DeleteDoc r) = r"

fun array_union :: "jsval \<Rightarrow> jsval list \<Rightarrow> jsval" where
  "array_union (Arr ys) xs = Arr (ys @ filter (\<lambda>x. x \<notin> set ys) (remdups xs))"
| "array_union v xs = Arr (remdups xs)"

fun stored_value :: "int \<Rightarrow> jsval \<Rightarrow> jsval" where
  "stored_value now ServerTimestamp = Timestamp now"
| "stored_value now (Date t) = Timestamp t"
| "stored_value now (ArrayUnion xs) = Arr (remdups xs)"
| "stored_value now v = v"

definition update_field :: "int \<Rightarrow> obj \<Rightarrow> string \<times> jsval \<Rightarrow> obj" where
  "update_field now d kv =
     (case snd kv of
        ArrayUnion xs \<Rightarrow> put (fst kv) (array_union (field d (fst kv)) xs) d
      | v \<Rightarrow> put (fst kv) (stored_value now v) d)"

fun apply_write :: "int \<Rightarrow> store \<Rightarrow> mutation \<Rightarrow> store" where
  "apply_write now s (SetDoc r d) = put r (map (\<lambda>(k, v). (k, stored_value now v)) d) s"
| "apply_write now s (UpdateDoc r d) =
     (case map_of s r of Some old \<Rightarrow> put r (foldl (update_field now) old d) s | None \<Rightarrow> s)"
| "apply_write now s (DeleteDoc r) = filter (\<lambda>(r', d). r' \<noteq> r) s"

text \<open>
  The store side of a write request: its clock, and the documents on which it refuses
  writes (for instance by its access rules). A batch is committed as a whole: when the store
  answers, either every write of the batch is acceptable and all are applied in order, or the
  commit is rejected and the store is left as it was. An update of a document that does not
  exist is not acceptable. A single \<^verbatim>\<open>setDoc\<close>, \<^verbatim>\<open>updateDoc\<close> or \<^verbatim>\<open>deleteDoc\<close> is a
  batch of one write.
\<close>

record server =
  server_now :: int
  refuses :: "ref list"

definition acceptable :: "server \<Rightarrow> store \<Rightarrow> mutation \<Rightarrow> bool" where
  "acceptable sv s w \<longleftrightarrow>
     target_of w \<notin> set (refuses sv)
     \<and> (case w of UpdateDoc r d \<Rightarrow> map_of s r \<noteq> None | _ \<Rightarrow> True)"

definition commit :: "server \<Rightarrow> reply \<Rightarrow> mutation list \<Rightarrow> store \<Rightarrow> unit promise \<times> store" where
  "commit sv rp batch s =
     (case rp of
        Answers t \<Rightarrow>
          if list_all (acceptable sv s) batch
          then (Resolved t (), foldl (apply_write (server_now sv)) s batch)
          else (Rejected t, s)
      | Errors t \<Rightarrow> (Rejected t, s)
      | Silent \<Rightarrow> (Pending, s))"

text \<open>
  Continuing after \<^verbatim>\<open>await\<close>: the rest of an asynchronous function runs when the awaited
  promise has resolved, \<open>t\<close> milliseconds into the call.
\<close>

fun delayed :: "nat \<Rightarrow> 'a promise \<Rightarrow> 'a promise" where
  "delayed t (Resolved t' v) = Resolved (t + t') v"
| "delayed t (Rejected t') = Rejected (t + t')"
| "delayed t Pending = Pending"

definition returning :: "'b \<Rightarrow> unit promise \<Rightarrow> 'b promise" where
  "returning v p = (case p of Resolved t u \<Rightarrow> Resolved t v | Rejected t \<Rightarrow> Rejected t | Pending \<Rightarrow> Pending)"

section \<open>One-shot reads\<close>

text \<open>
  \<open>db\<close> tells whether \<^verbatim>\<open>getDb()\<close> finds the database handle; otherwise it throws at once.
  \<^verbatim>\<open>getProject\<close> and \<^verbatim>\<open>getUserProjects\<close> catch every error and return \<^verbatim>\<open>null\<close> or the empty
  list. The result of \<^verbatim>\<open>getDoc\<close> is a snapshot (here: the data of the document if it exists);
  the fallback of the bounded wait is \<^verbatim>\<open>null\<close>, here the outer \<open>None\<close>.
\<close>

definition snapshot_of :: "obj option promise \<Rightarrow> obj option option promise" where
  "snapshot_of p =
     (case p of Resolved t d \<Rightarrow> Resolved t (Some d) | Rejected t \<Rightarrow> Rejected t | Pending \<Rightarrow> Pending)"

definition getProject :: "bool \<Rightarrow> int \<Rightarrow> reply \<Rightarrow> string \<Rightarrow> store \<Rightarrow> obj option promise" where
  "getProject db now rp projectId s =
     (if \<not> db then Resolved 0 None
      else case withTimeout (snapshot_of (getDoc rp s (''projects'', projectId))) 3000 None of
        Resolved t None \<Rightarrow> Resolved t None
      | Resolved t (Some None) \<Rightarrow> Resolved t None
      | Resolved t (Some (Some data)) \<Rightarrow>
          Resolved t (Some (put ''created_at'' (toDate_or_now now (field data ''created_at'')) data))
      | Rejected t \<Rightarrow> Resolved t None
      | Pending \<Rightarrow> Pending)"

definition getUserProjects :: "bool \<Rightarrow> (nat \<Rightarrow> int) \<Rightarrow> reply \<Rightarrow> string \<Rightarrow> store \<Rightarrow> obj list promise" where
  "getUserProjects db clock rp userId s =
     (if \<not> db then Resolved 0 []
      else case withTimeout (getDocs rp s ''projects'' [ArrayContains ''members'' (Str userId)]) 3000 [] of
        Resolved t docs \<Rightarrow>
          Resolved t (js_sort (descending ''created_at'') (normalise clock [''created_at''] (map snd docs)))
      | Rejected t \<Rightarrow> Resolved t []
      | Pending \<Rightarrow> Pending)"

section \<open>Compound writes\<close>

text \<open>
  \<^verbatim>\<open>joinProjectByCode\<close>: a bounded lookup by join code, then one batch with the membership
  update and the role record. Its \<^verbatim>\<open>catch\<close> block logs and throws the error again.
\<close>

definition join_batch :: "string \<Rightarrow> string \<Rightarrow> mutation list" where
  "join_batch pid userId =
     [UpdateDoc (''projects'', pid) [(''members'', ArrayUnion [Str userId])],
      SetDoc (''project_roles'', pid @ ''_'' @ userId)
        [(''project_id'', Str pid), (''user_id'', Str userId), (''role'', Str ''member'')]]"

definition joinProjectByCode ::
  "bool \<Rightarrow> server \<Rightarrow> reply \<Rightarrow> reply \<Rightarrow> string \<Rightarrow> string \<Rightarrow> store \<Rightarrow> string option promise \<times> store" where
  "joinProjectByCode db sv lookup cr joinCode userId s =
     (if \<not> db then (Rejected 0, s)
      else case withTimeout (getDocs lookup s ''projects'' [Eq ''join_code'' (Str joinCode)]) 5000 [] of
        Resolved t [] \<Rightarrow> (Resolved t None, s)
      | Resolved t (projectDoc # others) \<Rightarrow>
          (let pid = snd (fst projectDoc);
               (p, s') = commit sv cr (join_batch pid userId) s
           in (delayed t (returning (Some pid) p), s'))
      | Rejected t \<Rightarrow> (Rejected t, s)
      | Pending \<Rightarrow> (Pending, s))"

text \<open>
  \<^verbatim>\<open>deleteProject\<close>: the deletions of the project's tasks and messages are queued in the same
  batch as the deletion of the project document; an error of one of the two queries is
  logged and that part is skipped. The queries are awaited without a bound.
\<close>

definition queue_deletes :: "(ref \<times> obj) list promise \<Rightarrow> mutation list promise" where
  "queue_deletes p =
     (case p of
        Resolved t docs \<Rightarrow> Resolved t (map (\<lambda>d. DeleteDoc (fst d)) docs)
      | Rejected t \<Rightarrow> Resolved t []
      | Pending \<Rightarrow> Pending)"

definition deleteProject ::
  "bool \<Rightarrow> server \<Rightarrow> reply \<Rightarrow> reply \<Rightarrow> reply \<Rightarrow> string \<Rightarrow> store \<Rightarrow> unit promise \<times> store" where
  "deleteProject db sv tq mq cr projectId s =
     (if \<not> db then (Rejected 0, s)
      else case queue_deletes (getDocs tq s ''tasks'' [Eq ''project_id'' (Str projectId)]) of
        Resolved t1 task_deletes \<Rightarrow>
          (case queue_deletes (getDocs mq s ''messages'' [Eq ''project_id'' (Str projectId)]) of
             Resolved t2 message_deletes \<Rightarrow>
               (let (p, s') = commit sv cr
                      (task_deletes @ message_deletes @ [DeleteDoc (''projects'', projectId)]) s
                in (delayed (t1 + t2) p, s'))
           | Rejected t2 \<Rightarrow> (Rejected (t1 + t2), s)
           | Pending \<Rightarrow> (Pending, s))
      | Rejected t1 \<Rightarrow> (Rejected t1, s)
      | Pending \<Rightarrow> (Pending, s))"

text \<open>What joining leaves in the store: the user in the member array, and the role record.\<close>

definition is_member :: "string \<Rightarrow> string \<Rightarrow> store \<Rightarrow> bool" where
  "is_member userId pid s \<longleftrightarrow>
     (case map_of s (''projects'', pid) of
        Some d \<Rightarrow> (case field d ''members'' of Arr ms \<Rightarrow> Str userId \<in> set ms | _ \<Rightarrow> False)
      | None \<Rightarrow> False)"

definition has_member_role :: "string \<Rightarrow> string \<Rightarrow> store \<Rightarrow> bool" where
  "has_member_role userId pid s \<longleftrightarrow>
     map_of s (''project_roles'', pid @ ''_'' @ userId)
       = Some [(''project_id'', Str pid), (''user_id'', Str userId), (''role'', Str ''member'')]"

fun resolved :: "'a promise \<Rightarrow> bool" where
  "resolved (Resolved t v) = True"
| "resolved p = False"

text \<open>
  The deletions that \<^verbatim>\<open>deleteProject\<close> queues for one sub-collection, given the reply to its
  query: one per matching document when the query is answered, none when it fails.
\<close>

definition queued :: "reply \<Rightarrow> store \<Rightarrow> string \<Rightarrow> string \<Rightarrow> mutation list" where
  "queued rp s c projectId =
     (case rp of
        Answers t \<Rightarrow> map (\<lambda>d. DeleteDoc (fst d)) (run_query s c [Eq ''project_id'' (Str projectId)])
      | Errors t \<Rightarrow> []
      | Silent \<Rightarrow> [])"

fun reply_time :: "reply \<Rightarrow> nat" where
  "reply_time (Answers t) = t"
| "reply_time (Errors t) = t"
| "reply_time Silent = 0"

section \<open>Single-document writes\<close>

text \<open>
  Each write operation builds one payload from its input record and the generated document
  id and sends it to the store. \<^verbatim>\<open>Object.fromEntries(Object.entries(o).filter(([_, v]) => v !== undefined))\<close>
  keeps the properties whose value is not \<^verbatim>\<open>undefined\<close>; only some of the operations apply it.
\<close>

definition strip_undefined :: "obj \<Rightarrow> obj" where
  "strip_undefined ob = filter (\<lambda>(k, v). v \<noteq> Undefined) ob"

text \<open>
  The client library checks a payload before anything is sent: \<^verbatim>\<open>setDoc\<close>, \<^verbatim>\<open>updateDoc\<close>
  and \<^verbatim>\<open>batch.set\<close> throw at once when a property, or an element of an array, is
  \<^verbatim>\<open>undefined\<close>. An operation whose payload is refused, or that finds no database handle,
  rejects immediately and leaves the store as it is.
\<close>

fun payload :: "mutation \<Rightarrow> obj" where
  "payload (SetDoc r d) = d"
| "payload (UpdateDoc r d) = d"
| "payload (DeleteDoc r) = []"

fun holds_undefined :: "jsval \<Rightarrow> bool" where
  "holds_undefined Undefined = True"
| "holds_undefined (Arr xs) = list_ex holds_undefined xs"
| "holds_undefined (ArrayUnion xs) = list_ex holds_undefined xs"
| "holds_undefined v = False"

definition sendable :: "mutation \<Rightarrow> bool" where
  "sendable w = list_all (\<lambda>kv. \<not> holds_undefined (snd kv)) (payload w)"

definition issue :: "bool \<Rightarrow> server \<Rightarrow> reply \<Rightarrow> mutation list \<Rightarrow> store \<Rightarrow> unit promise \<times> store" where
  "issue db sv rp batch s =
     (if \<not> db then (Rejected 0, s)
      else if \<not> list_all sendable batch then (Rejected 0, s)
      else commit sv rp batch s)"

definition createTask_write :: "string \<Rightarrow> obj \<Rightarrow> mutation" where
  "createTask_write taskId task =
     SetDoc (''tasks'', taskId)
       (strip_undefined (put ''last_updated'' ServerTimestamp (put ''task_id'' (Str taskId) task)))"

definition createTask :: "bool \<Rightarrow> server \<Rightarrow> reply \<Rightarrow> string \<Rightarrow> obj \<Rightarrow> store \<Rightarrow> string promise \<times> store" where
  "createTask db sv rp taskId task s =
     (case issue db sv rp [createTask_write taskId task] s of (p, s') \<Rightarrow> (returning taskId p, s'))"

text \<open>\<^verbatim>\<open>createTasks\<close>: one batch, with a newly generated id \<open>fresh i\<close> for the \<open>i\<close>-th task.\<close>

definition createTasks_batch :: "(nat \<Rightarrow> string) \<Rightarrow> obj list \<Rightarrow> mutation list" where
  "createTasks_batch fresh tasks = map (\<lambda>(i, task). createTask_write (fresh i) task) (enumerate 0 tasks)"

definition createTasks :: "bool \<Rightarrow> server \<Rightarrow> reply \<Rightarrow> (nat \<Rightarrow> string) \<Rightarrow> obj list \<Rightarrow> store \<Rightarrow> unit promise \<times> store" where
  "createTasks db sv rp fresh tasks s = issue db sv rp (createTasks_batch fresh tasks) s"

definition updateTask_write :: "string \<Rightarrow> obj \<Rightarrow> mutation" where
  "updateTask_write taskId updates =
     UpdateDoc (''tasks'', taskId) (strip_undefined (put ''last_updated'' ServerTimestamp updates))"


definition uploadResource_write :: "string \<Rightarrow> obj \<Rightarrow> mutation" where
  "uploadResource_write resourceId resource =
     SetDoc (''shared_resources'', resourceId)
       (strip_undefined (put ''created_at'' ServerTimestamp (put ''resource_id'' (Str resourceId) resource)))"

definition uploadResource :: "bool \<Rightarrow> server \<Rightarrow> reply \<Rightarrow> string \<Rightarrow> obj \<Rightarrow> store \<Rightarrow> string promise \<times> store" where
  "uploadResource db sv rp resourceId resource s =
     (case issue db sv rp [uploadResource_write resourceId resource] s of
        (p, s') \<Rightarrow> (returning resourceId p, s'))"

definition addActivity_write :: "string \<Rightarrow> obj \<Rightarrow> mutation" where
  "addActivity_write activityId activity =
     SetDoc (''live_activities'', activityId)
       (strip_undefined (put ''timestamp'' ServerTimestamp (put ''activity_id'' (Str activityId) activity)))"

definition addActivity :: "bool \<Rightarrow> server \<Rightarrow> reply \<Rightarrow> string \<Rightarrow> obj \<Rightarrow> store \<Rightarrow> unit promise \<times> store" where
  "addActivity db sv rp activityId activity s = issue db sv rp [addActivity_write activityId activity] s"

definition createNotification_write :: "string \<Rightarrow> obj \<Rightarrow> mutation" where
  "createNotification_write notificationId notification =
     SetDoc (''team_notifications'', notificationId)
       (strip_undefined
          (put ''created_at'' ServerTimestamp (put ''notification_id'' (Str notificationId) notification)))"

definition createNotification :: "bool \<Rightarrow> server \<Rightarrow> reply \<Rightarrow> string \<Rightarrow> obj \<Rightarrow> store \<Rightarrow> unit promise \<times> store" where
  "createNotification db sv rp notificationId notification s =
     issue db sv rp [createNotification_write notificationId notification] s"

text \<open>The operations below send the object literal as it is built.\<close>

definition sendMessage_write :: "string \<Rightarrow> obj \<Rightarrow> mutation" where
  "sendMessage_write msgId message =
     SetDoc (''messages'', msgId) (put ''timestamp'' ServerTimestamp (put ''message_id'' (Str msgId) message))"

definition sendMessage :: "bool \<Rightarrow> server \<Rightarrow> reply \<Rightarrow> string \<Rightarrow> obj \<Rightarrow> store \<Rightarrow> string promise \<times> store" where
  "sendMessage db sv rp msgId message s =
     (case issue db sv rp [sendMessage_write msgId message] s of (p, s') \<Rightarrow> (returning msgId p, s'))"

definition createMilestone_write :: "string \<Rightarrow> obj \<Rightarrow> mutation" where
  "createMilestone_write milestoneId milestone =
     SetDoc (''milestones'', milestoneId)
       (put ''created_at'' ServerTimestamp (put ''milestone_id'' (Str milestoneId) milestone))"

definition createMilestone :: "bool \<Rightarrow> server \<Rightarrow> reply \<Rightarrow> string \<Rightarrow> obj \<Rightarrow> store \<Rightarrow> string promise \<times> store" where
  "createMilestone db sv rp milestoneId milestone s =
     (case issue db sv rp [createMilestone_write milestoneId milestone] s of
        (p, s') \<Rightarrow> (returning milestoneId p, s'))"

definition createScheduleEvent_write :: "string \<Rightarrow> obj \<Rightarrow> mutation" where
  "createScheduleEvent_write eventId ev =
     SetDoc (''schedule_events'', eventId)
       (put ''created_at'' ServerTimestamp
         (put ''end_time'' (field ev ''end_time'')
           (put ''start_time'' (field ev ''start_time'')
             (put ''event_id'' (Str eventId) ev))))"

definition createScheduleEvent :: "bool \<Rightarrow> server \<Rightarrow> reply \<Rightarrow> string \<Rightarrow> obj \<Rightarrow> store \<Rightarrow> string promise \<times> store" where
  "createScheduleEvent db sv rp eventId ev s =
     (case issue db sv rp [createScheduleEvent_write eventId ev] s of
        (p, s') \<Rightarrow> (returning eventId p, s'))"

text \<open>A payload without an undefined property, which is what the filter establishes.\<close>

definition undefined_free :: "obj \<Rightarrow> bool" where
  "undefined_free ob \<longleftrightarrow> Undefined \<notin> set (map snd ob)"

section \<open>View state: optimistic task status\<close>



section \<open>Numbers\<close>

text \<open>
  A finite JavaScript number is a binary64 value; the pair \<open>(m, e)\<close> stands for \<open>m * 2 ^ e\<close>.
  Every arithmetic operation computes the exact result and rounds it to 53 significant bits,
  to nearest with ties to even. Exponent overflow and subnormal numbers do not occur for
  the magnitudes handled here (between \<open>2 ^ - 53\<close> and \<open>2 ^ 53\<close>) and are not modelled.
\<close>

type_synonym number = "int \<times> int"

definition round_magnitude :: "int \<Rightarrow> int \<Rightarrow> number" where
  "round_magnitude m e =
     (let k = bitlen m - 53 in
      if k \<le> 0 then (m, e)
      else let p = 2 ^ nat k; q = m div p; r = m mod p; h = p div 2
           in (if r < h \<or> (r = h \<and> even q) then q else q + 1, e + k))"

definition round53 :: "number \<Rightarrow> number" where
  "round53 a =
     (if 0 \<le> fst a then round_magnitude (fst a) (snd a)
      else (- fst (round_magnitude (- fst a) (snd a)), snd (round_magnitude (- fst a) (snd a))))"

definition js_mul :: "number \<Rightarrow> number \<Rightarrow> number" where
  "js_mul a b = round53 (fst a * fst b, snd a + snd b)"

definition js_add :: "number \<Rightarrow> number \<Rightarrow> number" where
  "js_add a b =
     (let e = min (snd a) (snd b)
      in round53 (fst a * 2 ^ nat (snd a - e) + fst b * 2 ^ nat (snd b - e), e))"

text \<open>\<^verbatim>\<open>Math.floor\<close>, and the truncation towards zero that \<^verbatim>\<open>new Date(x)\<close> applies.\<close>

definition js_floor :: "number \<Rightarrow> int" where
  "js_floor a = (if 0 \<le> snd a then fst a * 2 ^ nat (snd a) else fst a div 2 ^ nat (- snd a))"

definition js_trunc :: "number \<Rightarrow> int" where
  "js_trunc a = (if 0 \<le> fst a then js_floor a else - js_floor (- fst a, snd a))"

text \<open>
  \<^verbatim>\<open>new Date(x)\<close> for a number: the time value is \<open>x\<close> truncated to an integer, and the date is
  invalid beyond 8.64e15 milliseconds from the epoch.
\<close>

definition new_Date :: "number \<Rightarrow> jsval" where
  "new_Date x = (if \<bar>js_trunc x\<bar> \<le> 8640000000000000 then Date (js_trunc x) else InvalidDate)"

text \<open>
  The literals \<^verbatim>\<open>0.2\<close> and \<^verbatim>\<open>0.7\<close> denote the binary64 values nearest to them,
  \<open>3602879701896397 / 2 ^ 54\<close> and \<open>3152519739159347 / 2 ^ 52\<close>.
\<close>

definition lit_0_2 :: number where
  "lit_0_2 = (3602879701896397, - 54)"

definition lit_0_7 :: number where
  "lit_0_7 = (3152519739159347, - 52)"

section \<open>Join codes\<close>

text \<open>
  \<^verbatim>\<open>Math.random()\<close> returns a binary64 value in \<open>[0, 1)\<close>; the engines' generators produce
  multiples of \<open>2 ^ - 53\<close>, so a result is given by a 53-bit word \<open>w\<close> and stands for
  \<open>w / 2 ^ 53\<close>. \<open>random n\<close> is the result of the \<open>n\<close>-th call. \<^verbatim>\<open>charAt\<close> returns the empty
  string for a position outside the string.
\<close>

definition chars :: string where
  "chars = ''ABCDEFGHIJKLMNOPQRSTUVWXYZ0123456789''"

definition charAt :: "string \<Rightarrow> int \<Rightarrow> string" where
  "charAt str i = (if 0 \<le> i \<and> i < int (length str) then [str ! nat i] else [])"

definition random_index :: "53 word \<Rightarrow> int" where
  "random_index w = js_floor (js_mul (uint w, - 53) (int (length chars), 0))"

function join_code_loop :: "(nat \<Rightarrow> 53 word) \<Rightarrow> nat \<Rightarrow> string \<Rightarrow> string" where
  "join_code_loop random i code =
     (if i < 6 then join_code_loop random (i + 1) (code @ charAt chars (random_index (random i)))
      else code)"
  by pat_completeness auto
termination
  by (relation "measure (\<lambda>(random, i, code). 6 - i)") auto

declare join_code_loop.simps [simp del]

definition generateJoinCode :: "(nat \<Rightarrow> 53 word) \<Rightarrow> string" where
  "generateJoinCode random = join_code_loop random 0 []"

section \<open>Creating a project\<close>

datatype duration = H24 | H48

fun duration_string :: "duration \<Rightarrow> string" where
  "duration_string H24 = ''24h''"
| "duration_string H48 = ''48h''"

text \<open>\<^verbatim>\<open>h * 60 * 60 * 1000\<close>, evaluated from the left.\<close>

definition hours_ms :: "number \<Rightarrow> number" where
  "hours_ms h = js_mul (js_mul (js_mul h (60, 0)) (60, 0)) (1000, 0)"

text \<open>
  The three default milestones, built from the clock reading \<open>now\<close> (\<^verbatim>\<open>new Date()\<close> in
  \<^verbatim>\<open>createDefaultMilestones\<close>) and the duration.
\<close>

definition default_milestones :: "int \<Rightarrow> duration \<Rightarrow> obj list" where
  "default_milestones now d =
     (let durationHours = (if d = H24 then (24, 0) else (48, 0))
      in [[(''name'', Str ''Idea Finalization''),
           (''description'', Str ''Complete idea analysis and feature planning''),
           (''type'', Str ''idea_submission''),
           (''deadline'', new_Date (js_add (now, 0) (hours_ms (js_mul durationHours lit_0_2))))],
          [(''name'', Str ''Prototype Development''),
           (''description'', Str ''Build working prototype with core features''),
           (''type'', Str ''prototype''),
           (''deadline'', new_Date (js_add (now, 0) (hours_ms (js_mul durationHours lit_0_7))))],
          [(''name'', Str ''Final Presentation''),
           (''description'', Str ''Complete project and prepare final presentation''),
           (''type'', Str ''final_presentation''),
           (''deadline'', new_Date (js_add (now, 0) (hours_ms durationHours)))]])"

text \<open>One batch with a \<^verbatim>\<open>set\<close> per milestone, under the newly generated id \<open>fresh i\<close>.\<close>

definition milestones_batch :: "(nat \<Rightarrow> string) \<Rightarrow> int \<Rightarrow> string \<Rightarrow> duration \<Rightarrow> mutation list" where
  "milestones_batch fresh now projectId d =
     map (\<lambda>(i, milestone).
            SetDoc (''milestones'', fresh i)
              (put ''created_at'' ServerTimestamp
                (put ''status'' (Str ''upcoming'')
                  (put ''project_id'' (Str projectId)
                    (put ''milestone_id'' (Str (fresh i)) milestone)))))
         (enumerate 0 (default_milestones now d))"

definition createDefaultMilestones ::
  "bool \<Rightarrow> server \<Rightarrow> reply \<Rightarrow> (nat \<Rightarrow> string) \<Rightarrow> int \<Rightarrow> string \<Rightarrow> duration \<Rightarrow> store
     \<Rightarrow> unit promise \<times> store" where
  "createDefaultMilestones db sv rp fresh now projectId d s =
     issue db sv rp (milestones_batch fresh now projectId d) s"

text \<open>
  \<^verbatim>\<open>createProject\<close> awaits the write of the project document only. The role record and the
  default milestones are written in the background and their failures are discarded; the
  store returned here is the store once these two writes have settled as well.
\<close>

definition project_document :: "string \<Rightarrow> string \<Rightarrow> duration \<Rightarrow> string \<Rightarrow> string \<Rightarrow> obj" where
  "project_document projectId name d userId joinCode =
     [(''project_id'', Str projectId),
      (''name'', Str name),
      (''duration'', Str (duration_string d)),
      (''created_by'', Str userId),
      (''members'', Arr [Str userId]),
      (''join_code'', Str joinCode),
      (''demo_mode'', Bool False),
      (''created_at'', ServerTimestamp),
      (''status'', Str ''planning''),
      (''github_repo'', Null),
      (''demo_url'', Null),
      (''pitch_deck_url'', Null),
      (''submission_deadline'', Null),
      (''hackathon_event'', Null)]"

definition admin_role :: "string \<Rightarrow> string \<Rightarrow> mutation" where
  "admin_role projectId userId =
     SetDoc (''project_roles'', projectId @ ''_'' @ userId)
       [(''project_id'', Str projectId), (''user_id'', Str userId), (''role'', Str ''admin'')]"

definition createProject ::
  "bool \<Rightarrow> server \<Rightarrow> reply \<Rightarrow> reply \<Rightarrow> reply \<Rightarrow> string \<Rightarrow> (nat \<Rightarrow> string) \<Rightarrow> (nat \<Rightarrow> 53 word) \<Rightarrow> int
     \<Rightarrow> string \<Rightarrow> duration \<Rightarrow> string \<Rightarrow> store \<Rightarrow> string promise \<times> store" where
  "createProject db sv rp role_rp milestones_rp projectId fresh random now name d userId s =
     (if \<not> db then (Rejected 0, s)
      else case commit sv rp
                  [SetDoc (''projects'', projectId)
                     (project_document projectId name d userId (generateJoinCode random))] s of
        (Resolved t u, s1) \<Rightarrow>
          (let s2 = snd (commit sv role_rp [admin_role projectId userId] s1);
               s3 = snd (createDefaultMilestones db sv milestones_rp fresh now projectId d s2)
           in (Resolved t projectId, s3))
      | (Rejected t, s1) \<Rightarrow> (Rejected t, s1)
      | (Pending, s1) \<Rightarrow> (Pending, s1))"

section \<open>Sorting lemmas\<close>

lemma mset_js_insert: "mset (js_insert cmp x ys) = add_mset x (mset ys)"
  by (induction ys) auto

lemma mset_js_sort: "mset (js_sort cmp xs) = mset xs"
  unfolding js_sort_def by (induction xs) (auto simp: mset_js_insert)

lemma set_js_insert: "set (js_insert cmp x ys) = insert x (set ys)"
  by (induction ys) auto

lemma sorted_js_insert:
  assumes "sorted_wrt (\<lambda>a b. f a \<le> (f b :: int)) ys"
  shows "sorted_wrt (\<lambda>a b. f a \<le> f b) (js_insert (\<lambda>a b. f a - f b) x ys)"
  using assms by (induction ys) (auto simp: set_js_insert)

lemma sorted_js_sort:
  "sorted_wrt (\<lambda>a b. f a \<le> (f b :: int)) (js_sort (\<lambda>a b. f a - f b) xs)"
  unfolding js_sort_def by (induction xs) (auto intro: sorted_js_insert)

lemma sorted_ascending:
  "sorted_wrt (\<lambda>a b. getTime (field a k) \<le> getTime (field b k)) (js_sort (ascending k) xs)"
proof -
  have "ascending k = (\<lambda>a b. getTime (field a k) - getTime (field b k))"
    by (intro ext) (simp add: ascending_def)
  then show ?thesis
    using sorted_js_sort [of "\<lambda>a. getTime (field a k)" xs] by simp
qed

lemma sorted_descending:
  "sorted_wrt (\<lambda>a b. getTime (field b k) \<le> getTime (field a k)) (js_sort (descending k) xs)"
proof -
  have "descending k = (\<lambda>a b. (- getTime (field a k)) - (- getTime (field b k)))"
    by (intro ext) (simp add: descending_def)
  then show ?thesis
    using sorted_js_sort [of "\<lambda>a. - getTime (field a k)" xs] by simp
qed

lemma sorted_ascending': "sorted_wrt (oldest_first k) (js_sort (ascending k) xs)"
  using sorted_ascending [of k xs] unfolding oldest_first_def .

lemma sorted_descending': "sorted_wrt (newest_first k) (js_sort (descending k) xs)"
  using sorted_descending [of k xs] unfolding newest_first_def .

lemma length_js_sort: "length (js_sort cmp xs) = length xs"
  using mset_js_sort [of cmp xs] by (metis size_mset)

lemma length_normalise: "length (normalise clock ks docs) = length docs"
  by (simp add: normalise_def)

lemma run_snapshot:
  "run (listening L) [Snapshot clock docs] = Listen (source L) # on_next L clock docs"
  by (simp add: run_def listening_def)

lemma deliver_until_error:
  "StreamError \<notin> set pre \<Longrightarrow>
     deliver L (pre @ StreamError # post) = deliver L pre @ (case on_error L of None \<Rightarrow> [] | Some acts \<Rightarrow> acts)"
proof (induction pre)
  case Nil
  then show ?case by simp
next
  case (Cons e pre)
  then show ?case by (cases e) auto
qed

lemma run_until_error:
  "StreamError \<notin> set pre \<Longrightarrow>
     run (listening L) (pre @ StreamError # post)
       = run (listening L) pre @ (case on_error L of None \<Rightarrow> [] | Some acts \<Rightarrow> acts)"
  by (simp add: run_def listening_def deliver_until_error)

lemma deliver_snapshot_last:
  "StreamError \<notin> set pre \<Longrightarrow>
     deliver L (pre @ [Snapshot clock docs]) = deliver L pre @ on_next L clock docs"
proof (induction pre)
  case Nil
  then show ?case by simp
next
  case (Cons e pre)
  then show ?case by (cases e) auto
qed

lemma run_snapshot_last:
  "StreamError \<notin> set pre \<Longrightarrow>
     run (listening L) (pre @ [Snapshot clock docs]) = run (listening L) pre @ on_next L clock docs"
  by (simp add: run_def listening_def deliver_snapshot_last)

lemma field_put_same: "field (put k v ob) k = v"
  by (induction ob) (auto simp: field_def)

lemma field_put_other: "k' \<noteq> k \<Longrightarrow> field (put k v ob) k' = field ob k'"
  by (induction ob) (auto simp: field_def)

lemma toDate_or_now_Date: "\<exists>t. toDate_or_now now v = Date t"
  by (cases v) simp_all

lemma normalised_field:
  assumes "k \<in> snd ` set jks \<or> (\<exists>t. field ob k = Date t)"
  shows "\<exists>t. field (foldl (\<lambda>ob (j, k). put k (toDate_or_now (c j) (field d k)) ob) ob jks) k = Date t"
  using assms
proof (induction jks arbitrary: ob)
  case Nil
  then show ?case by simp
next
  case (Cons jk jks)
  obtain j k' where jk: "jk = (j, k')" by (cases jk)
  let ?ob = "put k' (toDate_or_now (c j) (field d k')) ob"
  have "k \<in> snd ` set jks \<or> (\<exists>t. field ?ob k = Date t)"
  proof (cases "k' = k")
    case True
    then show ?thesis using toDate_or_now_Date [of "c j" "field d k"] by (simp add: field_put_same)
  next
    case False
    then show ?thesis using Cons.prems jk by (auto simp: field_put_other)
  qed
  then show ?case
    using Cons.IH [of ?ob] jk by simp
qed

lemma normalise_dates:
  assumes "k \<in> set ks" and "x \<in> set (normalise clock ks docs)"
  shows "\<exists>t. field x k = Date t"
proof -
  obtain i d where
    "x = foldl (\<lambda>ob (j, k). put k (toDate_or_now (clock (i * length ks + j)) (field d k)) ob) d (enumerate 0 ks)"
    using assms(2) by (auto simp: normalise_def)
  moreover have "k \<in> snd ` set (enumerate 0 ks)"
    using assms(1) by (metis map_snd_enumerate set_map)
  ultimately show ?thesis
    using normalised_field [of k "enumerate 0 ks" d "\<lambda>j. clock (i * length ks + j)" d] by simp
qed

lemma set_js_sort: "set (js_sort cmp xs) = set xs"
  using mset_js_sort [of cmp xs] by (metis set_mset_mset)

section \<open>Order of the delivered sequences\<close>

text \<open>
  C4. On every snapshot delivered on a subscription (after any number of earlier
  snapshots) the callback is invoked once, with the whole recomputed sequence: a
  permutation of the normalised documents of the snapshot, each carrying a date in its
  ordering property, in the fixed order of the entity: tasks by \<^verbatim>\<open>last_updated\<close>
  descending, messages by \<^verbatim>\<open>timestamp\<close> ascending, milestones by \<^verbatim>\<open>deadline\<close> ascending,
  notifications by \<^verbatim>\<open>created_at\<close> descending, and activities by \<^verbatim>\<open>timestamp\<close> descending
  cut to the first 50: the delivered activities followed by the dropped ones are the whole
  sequence in descending order, so no dropped activity is more recent than a delivered one.
\<close>

theorem snapshot_delivered_in_entity_order:
  assumes "StreamError \<notin> set pre"
  shows "run (subscribeToTasks True p) (pre @ [Snapshot clock docs])
           = run (subscribeToTasks True p) pre @ [Callback (tasks_snapshot clock docs)]
       \<and> mset (tasks_snapshot clock docs) = mset (normalise clock [''last_updated''] docs)
       \<and> (\<forall>x \<in> set (tasks_snapshot clock docs). \<exists>t. field x ''last_updated'' = Date t)
       \<and> sorted_wrt (newest_first ''last_updated'') (tasks_snapshot clock docs)
       \<and> run (subscribeToMessages True p) (pre @ [Snapshot clock docs])
           = run (subscribeToMessages True p) pre @ [Callback (messages_snapshot clock docs)]
       \<and> mset (messages_snapshot clock docs) = mset (normalise clock [''timestamp''] docs)
       \<and> (\<forall>x \<in> set (messages_snapshot clock docs). \<exists>t. field x ''timestamp'' = Date t)
       \<and> sorted_wrt (oldest_first ''timestamp'') (messages_snapshot clock docs)
       \<and> run (subscribeToMilestones True p) (pre @ [Snapshot clock docs])
           = run (subscribeToMilestones True p) pre @ [Callback (milestones_snapshot clock docs)]
       \<and> mset (milestones_snapshot clock docs) = mset (normalise clock [''deadline'', ''created_at''] docs)
       \<and> (\<forall>x \<in> set (milestones_snapshot clock docs). \<exists>t. field x ''deadline'' = Date t)
       \<and> sorted_wrt (oldest_first ''deadline'') (milestones_snapshot clock docs)
       \<and> run (subscribeToNotifications True p u) (pre @ [Snapshot clock docs])
           = run (subscribeToNotifications True p u) pre @ [Callback (notifications_snapshot clock docs)]
       \<and> mset (notifications_snapshot clock docs) = mset (normalise clock [''created_at''] docs)
       \<and> (\<forall>x \<in> set (notifications_snapshot clock docs). \<exists>t. field x ''created_at'' = Date t)
       \<and> sorted_wrt (newest_first ''created_at'') (notifications_snapshot clock docs)
       \<and> run (subscribeToActivities True p) (pre @ [Snapshot clock docs])
           = run (subscribeToActivities True p) pre @ [Callback (activities_snapshot clock docs)]
       \<and> length (activities_snapshot clock docs) = min 50 (length docs)
       \<and> (\<exists>dropped. mset (activities_snapshot clock docs @ dropped)
                        = mset (normalise clock [''timestamp''] docs)
                    \<and> (\<forall>x \<in> set (activities_snapshot clock docs @ dropped).
                          \<exists>t. field x ''timestamp'' = Date t)
                    \<and> sorted_wrt (newest_first ''timestamp'') (activities_snapshot clock docs @ dropped))"
proof -
  let ?s = "js_sort (descending ''timestamp'') (normalise clock [''timestamp''] docs)"
  have act: "activities_snapshot clock docs @ drop 50 ?s = ?s"
    by (simp add: activities_snapshot_def)
  have "mset (activities_snapshot clock docs @ drop 50 ?s) = mset (normalise clock [''timestamp''] docs)
      \<and> (\<forall>x \<in> set (activities_snapshot clock docs @ drop 50 ?s). \<exists>t. field x ''timestamp'' = Date t)
      \<and> sorted_wrt (newest_first ''timestamp'') (activities_snapshot clock docs @ drop 50 ?s)"
    unfolding act using normalise_dates [of "''timestamp''" "[''timestamp'']" _ clock docs]
    by (simp add: mset_js_sort set_js_sort sorted_descending')
  then have ex: "\<exists>dropped. mset (activities_snapshot clock docs @ dropped)
                        = mset (normalise clock [''timestamp''] docs)
                    \<and> (\<forall>x \<in> set (activities_snapshot clock docs @ dropped).
                          \<exists>t. field x ''timestamp'' = Date t)
                    \<and> sorted_wrt (newest_first ''timestamp'') (activities_snapshot clock docs @ dropped)"
    by blast
  have len: "length (activities_snapshot clock docs) = min 50 (length docs)"
    by (simp add: activities_snapshot_def length_js_sort length_normalise min.commute)
  have runs:
    "run (subscribeToTasks True p) (pre @ [Snapshot clock docs])
           = run (subscribeToTasks True p) pre @ [Callback (tasks_snapshot clock docs)]"
    "run (subscribeToMessages True p) (pre @ [Snapshot clock docs])
           = run (subscribeToMessages True p) pre @ [Callback (messages_snapshot clock docs)]"
    "run (subscribeToMilestones True p) (pre @ [Snapshot clock docs])
           = run (subscribeToMilestones True p) pre @ [Callback (milestones_snapshot clock docs)]"
    "run (subscribeToNotifications True p u) (pre @ [Snapshot clock docs])
           = run (subscribeToNotifications True p u) pre @ [Callback (notifications_snapshot clock docs)]"
    "run (subscribeToActivities True p) (pre @ [Snapshot clock docs])
           = run (subscribeToActivities True p) pre @ [Callback (activities_snapshot clock docs)]"
    using assms
    by (simp_all add: run_snapshot_last subscribeToTasks_def subscribeToMessages_def
          subscribeToMilestones_def subscribeToNotifications_def subscribeToActivities_def)
  have sorts:
    "mset (tasks_snapshot clock docs) = mset (normalise clock [''last_updated''] docs)"
    "sorted_wrt (newest_first ''last_updated'') (tasks_snapshot clock docs)"
    "mset (messages_snapshot clock docs) = mset (normalise clock [''timestamp''] docs)"
    "sorted_wrt (oldest_first ''timestamp'') (messages_snapshot clock docs)"
    "mset (milestones_snapshot clock docs) = mset (normalise clock [''deadline'', ''created_at''] docs)"
    "sorted_wrt (oldest_first ''deadline'') (milestones_snapshot clock docs)"
    "mset (notifications_snapshot clock docs) = mset (normalise clock [''created_at''] docs)"
    "sorted_wrt (newest_first ''created_at'') (notifications_snapshot clock docs)"
    by (simp_all add: tasks_snapshot_def messages_snapshot_def milestones_snapshot_def
          notifications_snapshot_def mset_js_sort sorted_ascending' sorted_descending')
  have dates:
    "\<forall>x \<in> set (tasks_snapshot clock docs). \<exists>t. field x ''last_updated'' = Date t"
    "\<forall>x \<in> set (messages_snapshot clock docs). \<exists>t. field x ''timestamp'' = Date t"
    "\<forall>x \<in> set (milestones_snapshot clock docs). \<exists>t. field x ''deadline'' = Date t"
    "\<forall>x \<in> set (notifications_snapshot clock docs). \<exists>t. field x ''created_at'' = Date t"
    using normalise_dates [of "''last_updated''" "[''last_updated'']" _ clock docs]
      normalise_dates [of "''timestamp''" "[''timestamp'']" _ clock docs]
      normalise_dates [of "''deadline''" "[''deadline'', ''created_at'']" _ clock docs]
      normalise_dates [of "''created_at''" "[''created_at'']" _ clock docs]
    by (simp_all add: tasks_snapshot_def messages_snapshot_def milestones_snapshot_def
          notifications_snapshot_def set_js_sort)
  show ?thesis
    using runs sorts dates len ex by blast
qed

theorem snapshot_delivered_in_entity_order_witness:
  "StreamError \<notin> set [Snapshot (\<lambda>n. 0) []]
   \<and> callbacks (run (subscribeToTasks True ''p1'')
        ([Snapshot (\<lambda>n. 0) []]
         @ [Snapshot (\<lambda>n. 1000 + int n)
              [[(''task_id'', Str ''a''), (''last_updated'', Timestamp 5)],
               [(''task_id'', Str ''b'')],
               [(''task_id'', Str ''c''), (''last_updated'', Timestamp 9)]]]))
     = [[],
        [[(''task_id'', Str ''b''), (''last_updated'', Date 1001)],
         [(''task_id'', Str ''c''), (''last_updated'', Date 9)],
         [(''task_id'', Str ''a''), (''last_updated'', Date 5)]]]"
proof -
  have h: "StreamError \<notin> set [Snapshot (\<lambda>n. 0) []]" by simp
  have "tasks_snapshot (\<lambda>n. 1000 + int n)
              [[(''task_id'', Str ''a''), (''last_updated'', Timestamp 5)],
               [(''task_id'', Str ''b'')],
               [(''task_id'', Str ''c''), (''last_updated'', Timestamp 9)]]
      = [[(''task_id'', Str ''b''), (''last_updated'', Date 1001)],
         [(''task_id'', Str ''c''), (''last_updated'', Date 9)],
         [(''task_id'', Str ''a''), (''last_updated'', Date 5)]]"
    by (simp add: tasks_snapshot_def normalise_def js_sort_def enumerate_eq_zip upt_rec field_def
        descending_def)
  moreover have "run (subscribeToTasks True ''p1'') [Snapshot (\<lambda>n. 0) []]
      = [Listen (Query ''tasks'' [Eq ''project_id'' (Str ''p1'')]), Callback []]"
    by (simp add: subscribeToTasks_def run_def listening_def tasks_snapshot_def normalise_def js_sort_def)
  ultimately show ?thesis
    using snapshot_delivered_in_entity_order [OF h, of "''p1''" "\<lambda>n. 1000 + int n"
        "[[(''task_id'', Str ''a''), (''last_updated'', Timestamp 5)],
               [(''task_id'', Str ''b'')],
               [(''task_id'', Str ''c''), (''last_updated'', Timestamp 9)]]"]
    by simp
qed

lemma members_actions_append:
  "members_actions ids m (evs @ evs') = members_actions ids m evs @ members_actions ids (members_map ids m evs) evs'"
  by (induction evs arbitrary: m) (auto simp: members_map_def)

lemma members_map_append:
  "members_map ids m (evs @ evs') = members_map ids (members_map ids m evs) evs'"
  by (simp add: members_map_def)












section \<open>Member lists emitted by the member subscription\<close>


section \<open>Stream errors\<close>

text \<open>
  C3, as amended. For the task, message, milestone and schedule-event subscriptions, when
  the change stream reports an error after any number of snapshots, the subscription logs
  the error and invokes the callback exactly once more, with the empty sequence; nothing
  follows (no listener is opened again, later events are not handled). The member
  subscription only logs the error of a member's stream and does not invoke the callback.
\<close>

theorem stream_error_handling:
  assumes "StreamError \<notin> set pre"
  shows "run (subscribeToTasks True p) (pre @ StreamError # post)
           = run (subscribeToTasks True p) pre @ [LogError, Callback []]
       \<and> run (subscribeToMessages True p) (pre @ StreamError # post)
           = run (subscribeToMessages True p) pre @ [LogError, Callback []]
       \<and> run (subscribeToMilestones True p) (pre @ StreamError # post)
           = run (subscribeToMilestones True p) pre @ [LogError, Callback []]
       \<and> run (subscribeToScheduleEvents True p u) (pre @ StreamError # post)
           = run (subscribeToScheduleEvents True p u) pre @ [LogError, Callback []]
       \<and> subscribeToProjectMembers True ids (mevs @ [DocError n])
           = subscribeToProjectMembers True ids mevs @ (if n < length ids then [LogError] else [])"
proof -
  have "subscribeToProjectMembers True ids (mevs @ [DocError n])
           = subscribeToProjectMembers True ids mevs @ (if n < length ids then [LogError] else [])"
    by (simp add: subscribeToProjectMembers_def members_actions_append)
  then show ?thesis
    using assms
    by (simp add: subscribeToTasks_def subscribeToMessages_def subscribeToMilestones_def
        subscribeToScheduleEvents_def run_until_error)
qed

theorem stream_error_handling_witness:
  "StreamError \<notin> set [Snapshot (\<lambda>n. 0) []]
   \<and> callbacks (run (subscribeToTasks True ''p1'') ([Snapshot (\<lambda>n. 0) []] @ StreamError # [Snapshot (\<lambda>n. 0) []]))
       = [[], []]"
  using stream_error_handling [of "[Snapshot (\<lambda>n. 0) []]" "''p1''" "[Snapshot (\<lambda>n. 0) []]" "''u1''" "[]" "[]" 0]
  by (simp add: subscribeToTasks_def run_def listening_def tasks_snapshot_def normalise_def js_sort_def)

text \<open>
  C3 as stated fails for the member subscription: on a stream error its callback is not
  invoked at all.
\<close>

theorem member_stream_error_counterexample:
  "callbacks (subscribeToProjectMembers True [''u1''] [DocError 0]) \<noteq> [[]]"
  by (simp add: subscribeToProjectMembers_def)

section \<open>Lemmas on the store and on bounded waiting\<close>

lemma map_of_put: "map_of (put k v xs) k' = (if k' = k then Some v else map_of xs k')"
  by (induction xs) auto

lemma field_put: "field (put k v ob) k' = (if k' = k then v else field ob k')"
  by (simp add: field_def map_of_put)

lemma withTimeout_in_time: "t \<le> ms \<Longrightarrow> withTimeout (Resolved t v) ms fb = Resolved t v"
  by (simp add: withTimeout_def race_def catch_fallback_def)

lemma withTimeout_Pending: "withTimeout Pending ms fb = Resolved ms fb"
  by (simp add: withTimeout_def race_def catch_fallback_def)

lemma withTimeout_Rejected: "withTimeout (Rejected t) ms fb = Resolved (min t ms) fb"
  by (simp add: withTimeout_def race_def catch_fallback_def min_def)

lemma withTimeout_late: "ms < t \<Longrightarrow> withTimeout (Resolved t v) ms fb = Resolved ms fb"
  by (simp add: withTimeout_def race_def catch_fallback_def)

lemma withTimeout_resolves:
  "\<exists>t v. withTimeout p ms fb = Resolved t v \<and> t \<le> ms"
proof (cases p)
  case (Resolved t v)
  then show ?thesis
    using withTimeout_in_time [of t ms v fb] withTimeout_late [of ms t v fb] by (cases "t \<le> ms") auto
next
  case (Rejected t)
  then show ?thesis by (simp add: withTimeout_Rejected)
next
  case Pending
  then show ?thesis by (simp add: withTimeout_Pending)
qed

lemma run_query_mem:
  "(r, d) \<in> set (run_query s c cls) \<Longrightarrow> fst r = c \<and> (r, d) \<in> set s \<and> list_all (matches d) cls"
  by (auto simp: run_query_def)

lemma map_of_present: "(r, d) \<in> set s \<Longrightarrow> map_of s r \<noteq> None"
  by (induction s) auto

lemma array_union_adds: "\<exists>ms. array_union v xs = Arr ms \<and> set xs \<subseteq> set ms"
  by (cases v) auto

lemma join_lookup_empty:
  assumes "run_query s ''projects'' [Eq ''join_code'' (Str code)] = []"
  shows "\<exists>t. joinProjectByCode True sv lookup cr code u s = (Resolved t None, s)"
proof -
  let ?p = "getDocs lookup s ''projects'' [Eq ''join_code'' (Str code)]"
  have "\<exists>t. withTimeout ?p 5000 [] = Resolved t []"
  proof (cases lookup)
    case (Answers t)
    then have "?p = Resolved t []" using assms by (simp add: getDocs_def)
    then show ?thesis
      using withTimeout_in_time [of t 5000 "[]" "[]"] withTimeout_late [of 5000 t "[]" "[]"]
      by (cases "t \<le> 5000") auto
  next
    case (Errors t)
    then show ?thesis by (simp add: getDocs_def withTimeout_Rejected)
  next
    case Silent
    then show ?thesis by (simp add: getDocs_def withTimeout_Pending)
  qed
  then obtain t where "withTimeout ?p 5000 [] = Resolved t []" by blast
  then show ?thesis by (simp add: joinProjectByCode_def)
qed

lemma commit_all_or_nothing:
  "commit sv cr batch s = (p, s') \<Longrightarrow>
     (\<exists>t. p = Resolved t () \<and> s' = foldl (apply_write (server_now sv)) s batch
           \<and> list_all (acceptable sv s) batch \<and> cr = Answers t)
     \<or> (\<not> resolved p \<and> s' = s)"
  by (cases cr) (auto simp: commit_def split: if_splits)

lemma join_batch_applied:
  assumes "map_of s (''projects'', pid) = Some d"
  shows "is_member u pid (foldl (apply_write now) s (join_batch pid u))
       \<and> has_member_role u pid (foldl (apply_write now) s (join_batch pid u))"
proof -
  obtain ms where ms: "array_union (field d ''members'') [Str u] = Arr ms" "Str u \<in> set ms"
    using array_union_adds [of "field d ''members''" "[Str u]"] by auto
  show ?thesis
    using assms ms
    by (simp add: join_batch_def is_member_def has_member_role_def map_of_put update_field_def field_put)
qed


lemma join_found:
  assumes q: "run_query s ''projects'' [Eq ''join_code'' (Str code)] = ((''projects'', pid), d) # others"
      and t: "t \<le> 5000"
  shows "joinProjectByCode True sv (Answers t) cr code u s
           = (delayed t (returning (Some pid) (fst (commit sv cr (join_batch pid u) s))),
              snd (commit sv cr (join_batch pid u) s))"
  using q withTimeout_in_time [OF t, of "((''projects'', pid), d) # others" "[]"]
  by (simp add: joinProjectByCode_def getDocs_def Let_def split: prod.splits)

lemma join_batch_acceptable:
  assumes "map_of s (''projects'', pid) \<noteq> None"
  shows "list_all (acceptable sv s) (join_batch pid u)
           \<longleftrightarrow> (''projects'', pid) \<notin> set (refuses sv)
               \<and> (''project_roles'', pid @ ''_'' @ u) \<notin> set (refuses sv)"
  using assms by (simp add: join_batch_def acceptable_def)

section \<open>Joining a project by code\<close>

text \<open>
  C1. With the database handle present: when no project matches the join code,
  \<^verbatim>\<open>joinProjectByCode\<close> returns \<^verbatim>\<open>null\<close> and leaves the store as it is, whatever the
  store replies. When the lookup is answered in time with at least one project, the only
  change to the store is the commit of one batch holding the membership update of the first
  matching project and its role record with role \<^verbatim>\<open>member\<close>: either the call resolves with
  that project's id and the store holds both the user in the member array and the role
  record, or the call does not resolve and the store is unchanged. When the store answers
  the commit and refuses neither document, the call resolves with the project's id.
\<close>

theorem join_project_by_code:
  "(run_query s ''projects'' [Eq ''join_code'' (Str code)] = []
      \<longrightarrow> (\<exists>t. joinProjectByCode True sv lookup cr code u s = (Resolved t None, s)))
   \<and> (\<forall>pid d others t.
        run_query s ''projects'' [Eq ''join_code'' (Str code)] = ((''projects'', pid), d) # others
        \<and> t \<le> 5000 \<longrightarrow>
          (case joinProjectByCode True sv (Answers t) cr code u s of
             (p, s') \<Rightarrow>
               ((\<exists>t'. p = Resolved t' (Some pid)) \<and> is_member u pid s' \<and> has_member_role u pid s')
               \<or> (\<not> resolved p \<and> s' = s))
          \<and> snd (joinProjectByCode True sv (Answers t) cr code u s)
              = snd (commit sv cr (join_batch pid u) s)
          \<and> (\<forall>t'. cr = Answers t' \<and> (''projects'', pid) \<notin> set (refuses sv)
                  \<and> (''project_roles'', pid @ ''_'' @ u) \<notin> set (refuses sv)
                \<longrightarrow> fst (joinProjectByCode True sv (Answers t) cr code u s)
                      = Resolved (t + t') (Some pid)))"
proof (intro conjI impI allI)
  assume "run_query s ''projects'' [Eq ''join_code'' (Str code)] = []"
  then show "\<exists>t. joinProjectByCode True sv lookup cr code u s = (Resolved t None, s)"
    by (rule join_lookup_empty)
next
  fix pid d others and t :: nat
  assume a: "run_query s ''projects'' [Eq ''join_code'' (Str code)] = ((''projects'', pid), d) # others
             \<and> t \<le> 5000"
  then have j: "joinProjectByCode True sv (Answers t) cr code u s
           = (delayed t (returning (Some pid) (fst (commit sv cr (join_batch pid u) s))),
              snd (commit sv cr (join_batch pid u) s))"
    using join_found by blast
  have "((''projects'', pid), d) \<in> set (run_query s ''projects'' [Eq ''join_code'' (Str code)])"
    using a by simp
  then have "((''projects'', pid), d) \<in> set s"
    using run_query_mem by blast
  then obtain d0 where d0: "map_of s (''projects'', pid) = Some d0"
    using map_of_present by fastforce
  obtain p0 s0 where c: "commit sv cr (join_batch pid u) s = (p0, s0)"
    by (cases "commit sv cr (join_batch pid u) s")
  show "case joinProjectByCode True sv (Answers t) cr code u s of
             (p, s') \<Rightarrow>
               ((\<exists>t'. p = Resolved t' (Some pid)) \<and> is_member u pid s' \<and> has_member_role u pid s')
               \<or> (\<not> resolved p \<and> s' = s)"
    using commit_all_or_nothing [OF c]
  proof
    assume "\<exists>t. p0 = Resolved t () \<and> s0 = foldl (apply_write (server_now sv)) s (join_batch pid u)
           \<and> list_all (acceptable sv s) (join_batch pid u) \<and> cr = Answers t"
    then show ?thesis
      using join_batch_applied [OF d0, of u "server_now sv"]
      by (auto simp: j c returning_def)
  next
    assume "\<not> resolved p0 \<and> s0 = s"
    then show ?thesis
      by (cases p0) (simp_all add: j c returning_def)
  qed
  show "snd (joinProjectByCode True sv (Answers t) cr code u s)
              = snd (commit sv cr (join_batch pid u) s)"
    by (simp add: j)
  fix t'
  assume h: "cr = Answers t' \<and> (''projects'', pid) \<notin> set (refuses sv)
                  \<and> (''project_roles'', pid @ ''_'' @ u) \<notin> set (refuses sv)"
  then have acc: "list_all (acceptable sv s) (join_batch pid u)"
    using join_batch_acceptable [of s pid sv u] d0 by simp
  show "fst (joinProjectByCode True sv (Answers t) cr code u s) = Resolved (t + t') (Some pid)"
    unfolding j using h acc by (simp add: commit_def returning_def)
qed

theorem join_project_by_code_witness:
  "run_query [((''projects'', ''p1''), [(''members'', Arr [Str ''alice'']), (''join_code'', Str ''ABC123'')])]
      ''projects'' [Eq ''join_code'' (Str ''ABC123'')]
     = [((''projects'', ''p1''), [(''members'', Arr [Str ''alice'']), (''join_code'', Str ''ABC123'')])]
   \<and> (10 :: nat) \<le> 5000
   \<and> joinProjectByCode True \<lparr>server_now = 1000, refuses = []\<rparr> (Answers 10) (Answers 20) ''ABC123'' ''bob''
        [((''projects'', ''p1''), [(''members'', Arr [Str ''alice'']), (''join_code'', Str ''ABC123'')])]
     = (Resolved 30 (Some ''p1''),
        [((''projects'', ''p1''), [(''members'', Arr [Str ''alice'', Str ''bob'']), (''join_code'', Str ''ABC123'')]),
         ((''project_roles'', ''p1_bob''),
          [(''project_id'', Str ''p1''), (''user_id'', Str ''bob''), (''role'', Str ''member'')])])"
proof -
  let ?d = "[(''members'', Arr [Str ''alice'']), (''join_code'', Str ''ABC123'')]"
  let ?s = "[((''projects'', ''p1''), ?d)]"
  let ?sv = "\<lparr>server_now = 1000, refuses = []\<rparr>"
  have q: "run_query ?s ''projects'' [Eq ''join_code'' (Str ''ABC123'')] = [((''projects'', ''p1''), ?d)]"
    by (simp add: run_query_def field_def)
  have le: "(10 :: nat) \<le> 5000" by simp
  from join_project_by_code [of ?s "''ABC123''" ?sv "Answers 10" "Answers 20" "''bob''"]
  have "\<forall>pid d others t.
        run_query ?s ''projects'' [Eq ''join_code'' (Str ''ABC123'')] = ((''projects'', pid), d) # others
        \<and> t \<le> 5000 \<longrightarrow>
          snd (joinProjectByCode True ?sv (Answers t) (Answers 20) ''ABC123'' ''bob'' ?s)
              = snd (commit ?sv (Answers 20) (join_batch pid ''bob'') ?s)
          \<and> (\<forall>t'. Answers 20 = Answers t' \<and> (''projects'', pid) \<notin> set (refuses ?sv)
                  \<and> (''project_roles'', pid @ ''_'' @ ''bob'') \<notin> set (refuses ?sv)
                \<longrightarrow> fst (joinProjectByCode True ?sv (Answers t) (Answers 20) ''ABC123'' ''bob'' ?s)
                      = Resolved (t + t') (Some pid))"
    by blast
  from this [rule_format, of "''p1''" ?d "[]" 10] q le
  have r: "snd (joinProjectByCode True ?sv (Answers 10) (Answers 20) ''ABC123'' ''bob'' ?s)
              = snd (commit ?sv (Answers 20) (join_batch ''p1'' ''bob'') ?s)"
    and f: "fst (joinProjectByCode True ?sv (Answers 10) (Answers 20) ''ABC123'' ''bob'' ?s)
                      = Resolved (10 + 20) (Some ''p1'')"
    by simp_all
  have "snd (commit ?sv (Answers 20) (join_batch ''p1'' ''bob'') ?s)
      = [((''projects'', ''p1''), [(''members'', Arr [Str ''alice'', Str ''bob'']), (''join_code'', Str ''ABC123'')]),
         ((''project_roles'', ''p1_bob''),
          [(''project_id'', Str ''p1''), (''user_id'', Str ''bob''), (''role'', Str ''member'')])]"
    by (simp add: commit_def join_batch_def acceptable_def update_field_def field_def)
  with r f q le show ?thesis
    by (simp add: prod_eq_iff)
qed

section \<open>One-shot reads against a slow or failing store\<close>

lemma getProject_resolves: "\<exists>t v. getProject db now rp pid s = Resolved t v \<and> t \<le> 3000"
proof (cases db)
  case False
  then show ?thesis by (simp add: getProject_def)
next
  case True
  obtain t v where w: "withTimeout (snapshot_of (getDoc rp s (''projects'', pid))) 3000 None = Resolved t v"
      and t: "t \<le> 3000"
    using withTimeout_resolves [of "snapshot_of (getDoc rp s (''projects'', pid))" 3000 None] by auto
  show ?thesis
  proof (cases v)
    case None
    then show ?thesis using True w t by (simp add: getProject_def)
  next
    case (Some snap)
    then show ?thesis using True w t by (cases snap) (simp_all add: getProject_def)
  qed
qed

lemma getUserProjects_resolves: "\<exists>t v. getUserProjects db clock rp uid s = Resolved t v \<and> t \<le> 3000"
proof (cases db)
  case False
  then show ?thesis by (simp add: getUserProjects_def)
next
  case True
  obtain t v where
    "withTimeout (getDocs rp s ''projects'' [ArrayContains ''members'' (Str uid)]) 3000 [] = Resolved t v"
    "t \<le> 3000"
    using withTimeout_resolves [of "getDocs rp s ''projects'' [ArrayContains ''members'' (Str uid)]" 3000 "[]"]
    by auto
  then show ?thesis using True by (simp add: getUserProjects_def)
qed

lemma js_sort_Nil: "js_sort cmp [] = []"
  by (simp add: js_sort_def)

lemma normalise_Nil: "normalise clock ks [] = []"
  by (simp add: normalise_def)

text \<open>
  C2, as amended. With the database handle present and a store that never replies,
  \<^verbatim>\<open>getProject\<close> resolves to \<^verbatim>\<open>null\<close> and \<^verbatim>\<open>getUserProjects\<close> to the empty list after 3000 ms,
  and \<^verbatim>\<open>joinProjectByCode\<close> resolves to \<^verbatim>\<open>null\<close> after 5000 ms, leaving the store as it is.
  \<^verbatim>\<open>getProject\<close> and \<^verbatim>\<open>getUserProjects\<close> never reject and always resolve within 3000 ms: a
  failing read and a missing database handle both give the fallback value. A failing
  lookup makes \<^verbatim>\<open>joinProjectByCode\<close> resolve to \<^verbatim>\<open>null\<close> within 5000 ms, but without the
  database handle \<^verbatim>\<open>joinProjectByCode\<close> rejects: its \<^verbatim>\<open>catch\<close> block throws the error again.
\<close>

theorem bounded_reads:
  "getProject True now Silent pid s = Resolved 3000 None
   \<and> getUserProjects True clock Silent uid s = Resolved 3000 []
   \<and> joinProjectByCode True sv Silent cr code uid s = (Resolved 5000 None, s)
   \<and> (\<exists>t v. getProject db now rp pid s = Resolved t v \<and> t \<le> 3000)
   \<and> (\<exists>t v. getUserProjects db clock rp uid s = Resolved t v \<and> t \<le> 3000)
   \<and> getProject True now (Errors e) pid s = Resolved (min e 3000) None
   \<and> getUserProjects True clock (Errors e) uid s = Resolved (min e 3000) []
   \<and> getProject False now rp pid s = Resolved 0 None
   \<and> getUserProjects False clock rp uid s = Resolved 0 []
   \<and> joinProjectByCode True sv (Errors e) cr code uid s = (Resolved (min e 5000) None, s)
   \<and> joinProjectByCode False sv rp cr code uid s = (Rejected 0, s)"
proof -
  have 1: "getProject True now Silent pid s = Resolved 3000 None"
    by (simp add: getProject_def getDoc_def snapshot_of_def withTimeout_Pending)
  have 2: "getUserProjects True clock Silent uid s = Resolved 3000 []"
    by (simp add: getUserProjects_def getDocs_def withTimeout_Pending js_sort_Nil normalise_Nil)
  have 3: "joinProjectByCode True sv Silent cr code uid s = (Resolved 5000 None, s)"
    by (simp add: joinProjectByCode_def getDocs_def withTimeout_Pending)
  have 4: "getProject True now (Errors e) pid s = Resolved (min e 3000) None"
    by (simp add: getProject_def getDoc_def snapshot_of_def withTimeout_Rejected)
  have 5: "getUserProjects True clock (Errors e) uid s = Resolved (min e 3000) []"
    by (simp add: getUserProjects_def getDocs_def withTimeout_Rejected js_sort_Nil normalise_Nil)
  have 6: "joinProjectByCode True sv (Errors e) cr code uid s = (Resolved (min e 5000) None, s)"
    by (simp add: joinProjectByCode_def getDocs_def withTimeout_Rejected)
  have 7: "getProject False now rp pid s = Resolved 0 None"
    "getUserProjects False clock rp uid s = Resolved 0 []"
    "joinProjectByCode False sv rp cr code uid s = (Rejected 0, s)"
    by (simp_all add: getProject_def getUserProjects_def joinProjectByCode_def)
  show ?thesis
    using 1 2 3 4 5 6 7 getProject_resolves [of db now rp pid s]
      getUserProjects_resolves [of db clock rp uid s]
    by simp
qed

text \<open>
  C2 as stated fails for \<^verbatim>\<open>joinProjectByCode\<close>: the error thrown by \<^verbatim>\<open>getDb()\<close> is not
  converted to \<^verbatim>\<open>null\<close>, the call rejects.
\<close>

theorem join_rejects_counterexample:
  "fst (joinProjectByCode False \<lparr>server_now = 0, refuses = []\<rparr> Silent Silent ''ABC123'' ''bob'' [])
     = Rejected 0"
  by (simp add: joinProjectByCode_def)

section \<open>Deleting a project\<close>

lemma delete_found:
  assumes "tq \<noteq> Silent" and "mq \<noteq> Silent"
  shows "deleteProject True sv tq mq cr pid s
           = (delayed (reply_time tq + reply_time mq)
                (fst (commit sv cr (queued tq s ''tasks'' pid @ queued mq s ''messages'' pid
                                     @ [DeleteDoc (''projects'', pid)]) s)),
              snd (commit sv cr (queued tq s ''tasks'' pid @ queued mq s ''messages'' pid
                                     @ [DeleteDoc (''projects'', pid)]) s))"
  using assms
  by (cases tq; cases mq)
     (simp_all add: deleteProject_def queue_deletes_def getDocs_def queued_def split: prod.splits)

lemma apply_deletes:
  "foldl (apply_write now) s (map DeleteDoc rs) = filter (\<lambda>(r, d). r \<notin> set rs) s"
proof (induction rs arbitrary: s)
  case Nil
  then show ?case by simp
next
  case (Cons r rs)
  have "filter (\<lambda>(r', d). r' \<notin> set rs) (filter (\<lambda>(r', d). r' \<noteq> r) s)
          = filter (\<lambda>(r', d). r' \<notin> set (r # rs)) s"
    by (induction s) auto
  then show ?case using Cons.IH by simp
qed

lemma queued_deletes: "\<exists>rs. queued rp s c pid = map DeleteDoc rs
     \<and> (\<forall>t. rp = Answers t \<longrightarrow> rs = map fst (run_query s c [Eq ''project_id'' (Str pid)]))"
  by (cases rp) (simp_all add: queued_def comp_def)

lemma map_of_filtered_out: "\<not> P r \<Longrightarrow> map_of (filter (\<lambda>(r', d). P r') s) r = None"
  by (induction s) auto

lemma run_query_filter:
  "run_query (filter P s) c cls = filter P (run_query s c cls)"
  by (simp add: run_query_def) (metis filter_filter conj_commute)

lemma nothing_left:
  assumes "set (map fst (run_query s c cls)) \<subseteq> set rs"
  shows "run_query (filter (\<lambda>(r, d). r \<notin> set rs) s) c cls = []"
  unfolding run_query_filter using assms by (auto simp: filter_empty_conv)


lemma delete_batch_shape:
  "\<exists>rs. queued tq s ''tasks'' pid @ queued mq s ''messages'' pid @ [DeleteDoc (''projects'', pid)]
          = map DeleteDoc (rs @ [(''projects'', pid)])
     \<and> (\<forall>t. tq = Answers t \<longrightarrow>
            set (map fst (run_query s ''tasks'' [Eq ''project_id'' (Str pid)])) \<subseteq> set rs)
     \<and> (\<forall>t. mq = Answers t \<longrightarrow>
            set (map fst (run_query s ''messages'' [Eq ''project_id'' (Str pid)])) \<subseteq> set rs)"
proof -
  obtain r1 where r1: "queued tq s ''tasks'' pid = map DeleteDoc r1"
    "\<forall>t. tq = Answers t \<longrightarrow> r1 = map fst (run_query s ''tasks'' [Eq ''project_id'' (Str pid)])"
    using queued_deletes [of tq s "''tasks''" pid] by blast
  obtain r2 where r2: "queued mq s ''messages'' pid = map DeleteDoc r2"
    "\<forall>t. mq = Answers t \<longrightarrow> r2 = map fst (run_query s ''messages'' [Eq ''project_id'' (Str pid)])"
    using queued_deletes [of mq s "''messages''" pid] by blast
  have "queued tq s ''tasks'' pid @ queued mq s ''messages'' pid @ [DeleteDoc (''projects'', pid)]
          = map DeleteDoc ((r1 @ r2) @ [(''projects'', pid)])"
    using r1(1) r2(1) by simp
  moreover have "\<forall>t. tq = Answers t \<longrightarrow>
            set (map fst (run_query s ''tasks'' [Eq ''project_id'' (Str pid)])) \<subseteq> set (r1 @ r2)"
    using r1(2) by auto
  moreover have "\<forall>t. mq = Answers t \<longrightarrow>
            set (map fst (run_query s ''messages'' [Eq ''project_id'' (Str pid)])) \<subseteq> set (r1 @ r2)"
    using r2(2) by auto
  ultimately show ?thesis by blast
qed

text \<open>
  C5, as amended. When both queries get a reply, \<^verbatim>\<open>deleteProject\<close> changes the store by
  committing one batch: the deletion of every task and of every message returned by an
  answered query, then the deletion of the project document. A failed query is logged and
  only leaves that sub-collection out of the batch. If the commit resolves, the project
  document is gone, and so is every task and message with the project's id whose query was
  answered; if it does not resolve, nothing is deleted, the project document included. When
  the store answers the commit and refuses no document, the call resolves even if a query
  had failed.
\<close>

theorem delete_project_one_batch:
  "tq \<noteq> Silent \<and> mq \<noteq> Silent \<longrightarrow>
     snd (deleteProject True sv tq mq cr pid s)
       = snd (commit sv cr (queued tq s ''tasks'' pid @ queued mq s ''messages'' pid
                             @ [DeleteDoc (''projects'', pid)]) s)
     \<and> (case deleteProject True sv tq mq cr pid s of
          (p, s') \<Rightarrow>
            (resolved p \<and> map_of s' (''projects'', pid) = None
               \<and> (\<forall>t. tq = Answers t \<longrightarrow> run_query s' ''tasks'' [Eq ''project_id'' (Str pid)] = [])
               \<and> (\<forall>t. mq = Answers t \<longrightarrow> run_query s' ''messages'' [Eq ''project_id'' (Str pid)] = []))
            \<or> (\<not> resolved p \<and> s' = s))
     \<and> (\<forall>t. cr = Answers t \<and> refuses sv = [] \<longrightarrow> resolved (fst (deleteProject True sv tq mq cr pid s)))"
proof (intro impI)
  assume a: "tq \<noteq> Silent \<and> mq \<noteq> Silent"
  let ?batch = "queued tq s ''tasks'' pid @ queued mq s ''messages'' pid @ [DeleteDoc (''projects'', pid)]"
  have d: "deleteProject True sv tq mq cr pid s
           = (delayed (reply_time tq + reply_time mq) (fst (commit sv cr ?batch s)),
              snd (commit sv cr ?batch s))"
    using a delete_found by blast
  obtain rs where rs: "?batch = map DeleteDoc (rs @ [(''projects'', pid)])"
    "\<forall>t. tq = Answers t \<longrightarrow>
            set (map fst (run_query s ''tasks'' [Eq ''project_id'' (Str pid)])) \<subseteq> set rs"
    "\<forall>t. mq = Answers t \<longrightarrow>
            set (map fst (run_query s ''messages'' [Eq ''project_id'' (Str pid)])) \<subseteq> set rs"
    using delete_batch_shape [of tq s pid mq] by blast
  obtain p0 s0 where c: "commit sv cr ?batch s = (p0, s0)"
    by (cases "commit sv cr ?batch s")
  have dich: "(resolved p0 \<and> map_of s0 (''projects'', pid) = None
               \<and> (\<forall>t. tq = Answers t \<longrightarrow> run_query s0 ''tasks'' [Eq ''project_id'' (Str pid)] = [])
               \<and> (\<forall>t. mq = Answers t \<longrightarrow> run_query s0 ''messages'' [Eq ''project_id'' (Str pid)] = []))
            \<or> (\<not> resolved p0 \<and> s0 = s)"
    using commit_all_or_nothing [OF c]
  proof
    assume "\<exists>t. p0 = Resolved t () \<and> s0 = foldl (apply_write (server_now sv)) s ?batch
             \<and> list_all (acceptable sv s) ?batch \<and> cr = Answers t"
    then have p0: "resolved p0"
      and s0: "s0 = filter (\<lambda>(r, d). r \<notin> set (rs @ [(''projects'', pid)])) s"
      unfolding rs(1) apply_deletes by auto
    have "map_of s0 (''projects'', pid) = None"
      unfolding s0 by (rule map_of_filtered_out) simp
    moreover have "\<forall>t. tq = Answers t \<longrightarrow> run_query s0 ''tasks'' [Eq ''project_id'' (Str pid)] = []"
      unfolding s0 using rs(2) nothing_left [of s "''tasks''" _ "rs @ [(''projects'', pid)]"] by auto
    moreover have "\<forall>t. mq = Answers t \<longrightarrow> run_query s0 ''messages'' [Eq ''project_id'' (Str pid)] = []"
      unfolding s0 using rs(3) nothing_left [of s "''messages''" _ "rs @ [(''projects'', pid)]"] by auto
    ultimately show ?thesis using p0 by blast
  next
    assume "\<not> resolved p0 \<and> s0 = s"
    then show ?thesis by blast
  qed
  have res: "resolved (delayed (reply_time tq + reply_time mq) p0) = resolved p0"
    by (cases p0) simp_all
  have ok: "\<forall>t. cr = Answers t \<and> refuses sv = [] \<longrightarrow> resolved p0"
  proof (intro allI impI)
    fix t
    assume h: "cr = Answers t \<and> refuses sv = []"
    then have "list_all (acceptable sv s) ?batch"
      unfolding rs(1) by (simp add: acceptable_def list_all_iff)
    then show "resolved p0"
      using c h by (auto simp: commit_def)
  qed
  show "snd (deleteProject True sv tq mq cr pid s) = snd (commit sv cr ?batch s)
     \<and> (case deleteProject True sv tq mq cr pid s of
          (p, s') \<Rightarrow>
            (resolved p \<and> map_of s' (''projects'', pid) = None
               \<and> (\<forall>t. tq = Answers t \<longrightarrow> run_query s' ''tasks'' [Eq ''project_id'' (Str pid)] = [])
               \<and> (\<forall>t. mq = Answers t \<longrightarrow> run_query s' ''messages'' [Eq ''project_id'' (Str pid)] = []))
            \<or> (\<not> resolved p \<and> s' = s))
     \<and> (\<forall>t. cr = Answers t \<and> refuses sv = [] \<longrightarrow> resolved (fst (deleteProject True sv tq mq cr pid s)))"
    unfolding d c using dich ok res by simp
qed


theorem delete_project_one_batch_witness:
  "Errors 1 \<noteq> Silent \<and> Answers 2 \<noteq> Silent
   \<and> deleteProject True \<lparr>server_now = 0, refuses = []\<rparr> (Errors 1) (Answers 2) (Answers 3) ''p1''
        [((''projects'', ''p1''), [(''name'', Str ''demo'')]),
         ((''tasks'', ''t1''), [(''project_id'', Str ''p1'')]),
         ((''messages'', ''m1''), [(''project_id'', Str ''p1'')]),
         ((''messages'', ''m2''), [(''project_id'', Str ''p2'')])]
     = (Resolved 6 (),
        [((''tasks'', ''t1''), [(''project_id'', Str ''p1'')]),
         ((''messages'', ''m2''), [(''project_id'', Str ''p2'')])])"
proof -
  let ?s = "[((''projects'', ''p1''), [(''name'', Str ''demo'')]),
         ((''tasks'', ''t1''), [(''project_id'', Str ''p1'')]),
         ((''messages'', ''m1''), [(''project_id'', Str ''p1'')]),
         ((''messages'', ''m2''), [(''project_id'', Str ''p2'')])]"
  let ?sv = "\<lparr>server_now = 0, refuses = []\<rparr>"
  have ne: "Errors 1 \<noteq> Silent \<and> Answers 2 \<noteq> Silent" by simp
  from delete_project_one_batch [of "Errors 1" "Answers 2" ?sv "Answers 3" "''p1''" ?s] ne
  have "snd (deleteProject True ?sv (Errors 1) (Answers 2) (Answers 3) ''p1'' ?s)
       = snd (commit ?sv (Answers 3) (queued (Errors 1) ?s ''tasks'' ''p1'' @ queued (Answers 2) ?s ''messages'' ''p1''
                             @ [DeleteDoc (''projects'', ''p1'')]) ?s)"
    and "resolved (fst (deleteProject True ?sv (Errors 1) (Answers 2) (Answers 3) ''p1'' ?s))"
    by simp_all
  moreover have "commit ?sv (Answers 3) (queued (Errors 1) ?s ''tasks'' ''p1'' @ queued (Answers 2) ?s ''messages'' ''p1''
                             @ [DeleteDoc (''projects'', ''p1'')]) ?s
      = (Resolved 3 (), [((''tasks'', ''t1''), [(''project_id'', Str ''p1'')]),
         ((''messages'', ''m2''), [(''project_id'', Str ''p2'')])])"
    by (simp add: commit_def queued_def run_query_def field_def acceptable_def)
  moreover have "fst (deleteProject True ?sv (Errors 1) (Answers 2) (Answers 3) ''p1'' ?s) = Resolved 6 ()"
    by (simp add: deleteProject_def queue_deletes_def getDocs_def run_query_def field_def commit_def acceptable_def)
  ultimately show ?thesis
    using ne by (simp add: prod_eq_iff)
qed

text \<open>
  C5 as stated fails: the sub-collection deletions are part of the same atomic batch as the
  deletion of the project document, so when the store refuses to delete one task, the
  project document is not deleted either, although its own deletion is not refused.
\<close>

theorem delete_blocked_counterexample:
  "(''projects'', ''p1'') \<notin> set (refuses \<lparr>server_now = 0, refuses = [(''tasks'', ''t1'')]\<rparr>)
   \<and> deleteProject True \<lparr>server_now = 0, refuses = [(''tasks'', ''t1'')]\<rparr>
        (Answers 1) (Answers 2) (Answers 3) ''p1''
        [((''projects'', ''p1''), [(''name'', Str ''demo'')]),
         ((''tasks'', ''t1''), [(''project_id'', Str ''p1'')])]
     = (Rejected 6,
        [((''projects'', ''p1''), [(''name'', Str ''demo'')]),
         ((''tasks'', ''t1''), [(''project_id'', Str ''p1'')])])"
  by (simp add: deleteProject_def queue_deletes_def getDocs_def run_query_def field_def commit_def
      acceptable_def)

section \<open>Payloads of the write operations\<close>

lemma undefined_free_strip: "undefined_free (strip_undefined ob)"
  by (auto simp: undefined_free_def strip_undefined_def)

lemma values_put: "set (map snd (put k v ob)) \<subseteq> insert v (set (map snd ob))"
proof (induction ob)
  case Nil
  then show ?case by simp
next
  case (Cons a ob)
  then show ?case by (cases a) auto
qed

lemma undefined_free_put: "undefined_free ob \<Longrightarrow> v \<noteq> Undefined \<Longrightarrow> undefined_free (put k v ob)"
  using values_put [of k v ob] by (auto simp: undefined_free_def)

text \<open>
  C6, as amended. \<^verbatim>\<open>createTask\<close>, \<^verbatim>\<open>createTasks\<close>, \<^verbatim>\<open>updateTask\<close>, \<^verbatim>\<open>uploadResource\<close>,
  \<^verbatim>\<open>addActivity\<close> and \<^verbatim>\<open>createNotification\<close> strip the properties whose value is
  \<^verbatim>\<open>undefined\<close> before sending: for every input record their payload has no undefined
  value. \<^verbatim>\<open>sendMessage\<close> and \<^verbatim>\<open>createMilestone\<close> send the input record with the id and the
  time stamp added and nothing removed, so their payload is free of undefined values when
  the input record is.
\<close>

theorem stripping_writes:
  "undefined_free (payload (createTask_write i ob))
   \<and> list_all (\<lambda>w. undefined_free (payload w)) (createTasks_batch fresh obs)
   \<and> undefined_free (payload (updateTask_write i ob))
   \<and> undefined_free (payload (uploadResource_write i ob))
   \<and> undefined_free (payload (addActivity_write i ob))
   \<and> undefined_free (payload (createNotification_write i ob))
   \<and> payload (sendMessage_write i ob) = put ''timestamp'' ServerTimestamp (put ''message_id'' (Str i) ob)
   \<and> payload (createMilestone_write i ob)
       = put ''created_at'' ServerTimestamp (put ''milestone_id'' (Str i) ob)
   \<and> (undefined_free ob \<longrightarrow> undefined_free (payload (sendMessage_write i ob))
                         \<and> undefined_free (payload (createMilestone_write i ob)))"
proof -
  have "list_all (\<lambda>w. undefined_free (payload w)) (createTasks_batch fresh obs)"
    by (simp add: createTasks_batch_def list_all_iff createTask_write_def undefined_free_strip split_def)
  moreover have "undefined_free ob \<longrightarrow> undefined_free (payload (sendMessage_write i ob))
                         \<and> undefined_free (payload (createMilestone_write i ob))"
    by (simp add: sendMessage_write_def createMilestone_write_def undefined_free_put)
  ultimately show ?thesis
    by (simp add: createTask_write_def updateTask_write_def uploadResource_write_def
        addActivity_write_def createNotification_write_def sendMessage_write_def
        createMilestone_write_def undefined_free_strip)
qed

theorem stripping_writes_witness:
  "undefined_free [(''content'', Str ''hi'')]
   \<and> payload (sendMessage_write ''m1'' [(''content'', Str ''hi'')])
       = [(''content'', Str ''hi''), (''message_id'', Str ''m1''), (''timestamp'', ServerTimestamp)]
   \<and> payload (createTask_write ''t1'' [(''title'', Str ''x''), (''due_date'', Undefined)])
       = [(''title'', Str ''x''), (''task_id'', Str ''t1''), (''last_updated'', ServerTimestamp)]"
  using stripping_writes [of "''m1''" "[(''content'', Str ''hi'')]" "\<lambda>n. []" "[]"]
  by (simp add: undefined_free_def createTask_write_def strip_undefined_def)

text \<open>
  C6 as stated fails: \<^verbatim>\<open>sendMessage\<close> and \<^verbatim>\<open>createScheduleEvent\<close> keep an undefined property
  of the input record in the payload that they hand to \<^verbatim>\<open>setDoc\<close>.
\<close>

theorem unstripped_write_counterexample:
  "\<not> undefined_free (payload (sendMessage_write ''m1'' [(''sender'', Str ''u1''), (''content'', Undefined)]))
   \<and> \<not> undefined_free (payload (createScheduleEvent_write ''e1''
          [(''title'', Str ''demo''), (''start_time'', Date 0), (''end_time'', Date 1),
           (''description'', Undefined)]))"
  by (simp add: undefined_free_def sendMessage_write_def createScheduleEvent_write_def field_def)

section \<open>Optimistic task status\<close>










section \<open>Rounding to 53 bits\<close>

lemma int_div_less_iff:
  fixes a b c :: int
  assumes "0 < b"
  shows "a div b < c \<longleftrightarrow> a < c * b"
proof
  assume "a div b < c"
  then have "a div b + 1 \<le> c" by simp
  then have "(a div b + 1) * b \<le> c * b"
    using assms by (simp add: mult_right_mono)
  moreover have "a < (a div b + 1) * b"
    using assms by (metis add.commute distrib_right mult.commute mult_1 Euclidean_Rings.pos_mod_bound
        mult_div_mod_eq add_strict_left_mono)
  ultimately show "a < c * b" by linarith
next
  assume "a < c * b"
  show "a div b < c"
  proof (rule ccontr)
    assume "\<not> a div b < c"
    then have "c \<le> a div b" by simp
    then have "c * b \<le> (a div b) * b"
      using assms by (simp add: mult_right_mono)
    moreover have "(a div b) * b \<le> a"
      using assms by (metis Euclidean_Rings.pos_mod_sign mult.commute mult_div_mod_eq le_add_same_cancel1)
    ultimately show False using \<open>a < c * b\<close> by linarith
  qed
qed

lemma round_magnitude_near:
  assumes m: "0 \<le> m" and k: "bitlen m - 53 = int kk" "0 < kk"
  shows "snd (round_magnitude m e) = e + int kk
       \<and> 0 \<le> fst (round_magnitude m e)
       \<and> fst (round_magnitude m e) * 2 ^ kk \<le> m + 2 ^ (kk - 1)
       \<and> m - 2 ^ (kk - 1) \<le> fst (round_magnitude m e) * 2 ^ kk"
proof -
  define p :: int where "p = 2 ^ kk"
  define h :: int where "h = 2 ^ (kk - 1)"
  define q where "q = m div p"
  define r where "r = m mod p"
  have p: "0 < p" "p = 2 * h"
    using k(2) by (simp_all add: p_def h_def flip: power_Suc)
  have hd: "p div 2 = h" using p by simp
  have r: "0 \<le> r" "r < p" using p(1) by (simp_all add: r_def)
  have q: "0 \<le> q" using m p(1) by (simp add: q_def pos_imp_zdiv_nonneg_iff)
  have m_eq: "m = q * p + r" by (simp add: q_def r_def)
  have rm: "round_magnitude m e = (if r < h \<or> (r = h \<and> even q) then q else q + 1, e + int kk)"
    using k by (simp add: round_magnitude_def Let_def p_def [symmetric] hd q_def r_def)
  show ?thesis
  proof (cases "r < h \<or> (r = h \<and> even q)")
    case True
    then have "round_magnitude m e = (q, e + int kk)" using rm by simp
    moreover have "q * p \<le> m + h" "m - h \<le> q * p"
      using True m_eq r p by linarith+
    ultimately show ?thesis using q by (simp add: p_def h_def)
  next
    case False
    then have "round_magnitude m e = (q + 1, e + int kk)" using rm by simp
    moreover have "(q + 1) * p \<le> m + h" "m - h \<le> (q + 1) * p"
      using False m_eq r p by (simp_all add: distrib_right)
    ultimately show ?thesis using q by (simp add: p_def h_def)
  qed
qed


lemma js_floor_rounded_36:
  assumes n: "0 \<le> n" "n < 2 ^ 53"
  shows "0 \<le> js_floor (round_magnitude (36 * n) (- 53)) \<and> js_floor (round_magnitude (36 * n) (- 53)) < 36"
proof -
  define N where "N = 36 * n"
  have N: "0 \<le> N" "N \<le> 36 * 2 ^ 53 - 36"
    using n by (simp_all add: N_def)
  then have "N < 2 ^ 59" by simp
  then have L: "bitlen N \<le> 59"
    using bitlen_le_iff_power [of N 59] by simp
  have "0 \<le> js_floor (round_magnitude N (- 53)) \<and> js_floor (round_magnitude N (- 53)) < 36"
  proof (cases "bitlen N \<le> 53")
    case True
    then have "js_floor (round_magnitude N (- 53)) = N div 2 ^ 53"
      by (simp add: round_magnitude_def js_floor_def)
    moreover have "N div 2 ^ 53 < 36"
      using N by (subst int_div_less_iff) simp_all
    moreover have "0 \<le> N div 2 ^ 53"
      using N by (simp add: pos_imp_zdiv_nonneg_iff)
    ultimately show ?thesis by simp
  next
    case False
    define kk where "kk = nat (bitlen N - 53)"
    have kk: "bitlen N - 53 = int kk" "0 < kk" "kk \<le> 6"
      using False L by (simp_all add: kk_def)
    define m' where "m' = fst (round_magnitude N (- 53))"
    have near: "snd (round_magnitude N (- 53)) = - 53 + int kk" "0 \<le> m'"
      "m' * 2 ^ kk \<le> N + 2 ^ (kk - 1)"
      using round_magnitude_near [OF N(1) kk(1,2), of "- 53"] by (simp_all add: m'_def)
    have "(2::int) ^ (kk - 1) \<le> 2 ^ 5"
      using kk(3) by (intro power_increasing) simp_all
    then have "m' * 2 ^ kk < 36 * 2 ^ 53"
      using near(3) N(2) by simp
    also have "(36::int) * 2 ^ 53 = (36 * 2 ^ (53 - kk)) * 2 ^ kk"
      using kk(3) by (simp flip: power_add)
    finally have "m' < 36 * 2 ^ (53 - kk)"
      by simp
    then have "m' div 2 ^ (53 - kk) < 36"
      by (subst int_div_less_iff) simp_all
    moreover have "0 \<le> m' div 2 ^ (53 - kk)"
      using near(2) by (simp add: pos_imp_zdiv_nonneg_iff)
    moreover have "js_floor (round_magnitude N (- 53)) = m' div 2 ^ (53 - kk)"
      using near(1) kk(3) by (simp add: js_floor_def m'_def nat_diff_distrib)
    ultimately show ?thesis by simp
  qed
  then show ?thesis by (simp add: N_def)
qed

section \<open>Join code and member set of a created project\<close>

lemma random_index_range: "0 \<le> random_index w \<and> random_index w < 36"
proof -
  have "0 \<le> uint w" by simp
  moreover have "uint w < 2 ^ 53"
    using uint_bounded [of w] by simp
  ultimately show ?thesis
    using js_floor_rounded_36 [of "uint w"]
    by (simp add: random_index_def js_mul_def round53_def chars_def mult.commute)
qed

lemma length_chars: "length chars = 36"
  by (simp add: chars_def)

lemma charAt_random: "\<exists>c. charAt chars (random_index w) = [c] \<and> c \<in> set chars"
proof -
  have "0 \<le> random_index w" "random_index w < int (length chars)"
    using random_index_range [of w] by (simp_all add: length_chars)
  then show ?thesis
    by (simp add: charAt_def nat_less_iff)
qed

lemma join_code_loop_shape:
  "i \<le> 6 \<Longrightarrow> length (join_code_loop random i code) = length code + (6 - i)
     \<and> set (join_code_loop random i code) \<subseteq> set code \<union> set chars"
proof (induction random i code rule: join_code_loop.induct)
  case (1 random i code)
  show ?case
  proof (cases "i < 6")
    case True
    obtain c where c: "charAt chars (random_index (random i)) = [c]" "c \<in> set chars"
      using charAt_random by blast
    have step: "join_code_loop random i code = join_code_loop random (i + 1) (code @ [c])"
      using True c(1) by (subst join_code_loop.simps) simp
    have "length (join_code_loop random (i + 1) (code @ [c])) = length (code @ [c]) + (6 - (i + 1))
        \<and> set (join_code_loop random (i + 1) (code @ [c])) \<subseteq> set (code @ [c]) \<union> set chars"
      using "1.IH" [OF True] True c(1) by simp
    then show ?thesis
      unfolding step using True c(2) by auto
  next
    case False
    then have "join_code_loop random i code = code"
      by (subst join_code_loop.simps) simp
    then show ?thesis using False "1.prems" by simp
  qed
qed

lemma generateJoinCode_shape:
  "length (generateJoinCode random) = 6 \<and> set (generateJoinCode random) \<subseteq> set chars"
  using join_code_loop_shape [of 0 random "[]"] by (simp add: generateJoinCode_def)


lemma apply_write_other:
  "target_of w \<noteq> r \<Longrightarrow> map_of (apply_write now s w) r = map_of s r"
proof (cases w)
  case (SetDoc r' d)
  then show "target_of w \<noteq> r \<Longrightarrow> ?thesis" by (simp add: map_of_put)
next
  case (UpdateDoc r' d)
  then show "target_of w \<noteq> r \<Longrightarrow> ?thesis" by (simp add: map_of_put split: option.splits)
next
  case (DeleteDoc r')
  assume "target_of w \<noteq> r"
  then have "r' \<noteq> r" using DeleteDoc by simp
  then have "map_of (filter (\<lambda>(x, d). x \<noteq> r') s) r = map_of s r"
    by (induction s) auto
  then show ?thesis using DeleteDoc by simp
qed

lemma apply_writes_other:
  "r \<notin> target_of ` set batch \<Longrightarrow> map_of (foldl (apply_write now) s batch) r = map_of s r"
proof (induction batch arbitrary: s)
  case Nil
  then show ?case by simp
next
  case (Cons w batch)
  then have "target_of w \<noteq> r" "r \<notin> target_of ` set batch" by auto
  then show ?case using Cons.IH [of "apply_write now s w"] by (simp add: apply_write_other)
qed

lemma commit_other:
  "r \<notin> target_of ` set batch \<Longrightarrow> map_of (snd (commit sv rp batch s)) r = map_of s r"
  by (cases rp) (simp_all add: commit_def apply_writes_other)

lemma milestones_batch_targets:
  "target_of ` set (milestones_batch fresh now pid d) \<subseteq> {r. fst r = ''milestones''}"
  by (auto simp: milestones_batch_def)

text \<open>
  C8. Whenever \<^verbatim>\<open>createProject\<close> resolves, it resolves with the id of the new project, and the
  project document held by the store (also after the two background writes) names the
  creating user as creator, has a member array consisting of the creating user's id, and has
  a join code of exactly 6 characters, each from the 36-character alphabet of the uppercase
  letters and the digits. This holds for all results of \<^verbatim>\<open>Math.random()\<close>: the index
  \<^verbatim>\<open>Math.floor(Math.random() * 36)\<close>, computed in binary64, is always between 0 and 35.
\<close>

theorem created_project_document:
  assumes "fst (createProject db sv rp role_rp milestones_rp pid fresh random now name d uid s) = Resolved t r"
  shows "r = pid
       \<and> (\<exists>doc code.
             map_of (snd (createProject db sv rp role_rp milestones_rp pid fresh random now name d uid s))
               (''projects'', pid) = Some doc
             \<and> field doc ''created_by'' = Str uid
             \<and> field doc ''members'' = Arr [Str uid]
             \<and> field doc ''join_code'' = Str code
             \<and> length code = 6 \<and> set code \<subseteq> set chars)
       \<and> chars = ''ABCDEFGHIJKLMNOPQRSTUVWXYZ0123456789'' \<and> length chars = 36 \<and> distinct chars"
proof -
  let ?code = "generateJoinCode random"
  let ?w = "SetDoc (''projects'', pid) (project_document pid name d uid ?code)"
  let ?stored = "map (\<lambda>(k, v). (k, stored_value (server_now sv) v)) (project_document pid name d uid ?code)"
  have db: db
    using assms by (cases db) (simp_all add: createProject_def)
  obtain p1 s1 where c: "commit sv rp [?w] s = (p1, s1)"
    by (cases "commit sv rp [?w] s")
  have res: "p1 = Resolved t ()" and r: "r = pid"
    using assms db c by (cases p1; simp add: createProject_def Let_def)+
  have s1: "s1 = put (''projects'', pid) ?stored s"
    using c res by (cases rp) (auto simp: commit_def split: if_splits)
  let ?s2 = "snd (commit sv role_rp [admin_role pid uid] s1)"
  let ?s3 = "snd (createDefaultMilestones db sv milestones_rp fresh now pid d ?s2)"
  have final: "snd (createProject db sv rp role_rp milestones_rp pid fresh random now name d uid s) = ?s3"
    using db c res by (simp add: createProject_def Let_def)
  have "(''projects'', pid) \<notin> target_of ` set (milestones_batch fresh now pid d)"
  proof
    assume "(''projects'', pid) \<in> target_of ` set (milestones_batch fresh now pid d)"
    then have "(''projects'', pid) \<in> {r. fst r = ''milestones''}"
      using milestones_batch_targets [of fresh now pid d] by (rule rev_subsetD)
    then show False by simp
  qed
  then have "map_of ?s3 (''projects'', pid) = map_of ?s2 (''projects'', pid)"
    using db by (simp add: createDefaultMilestones_def issue_def commit_other)
  also have "\<dots> = map_of s1 (''projects'', pid)"
    by (rule commit_other) (simp add: admin_role_def)
  also have "\<dots> = Some ?stored"
    by (simp add: s1 map_of_put)
  finally have m: "map_of ?s3 (''projects'', pid) = Some ?stored" .
  have f: "field ?stored ''created_by'' = Str uid" "field ?stored ''members'' = Arr [Str uid]"
    "field ?stored ''join_code'' = Str ?code"
    by (simp_all add: field_def project_document_def)
  have "\<exists>doc code.
             map_of (snd (createProject db sv rp role_rp milestones_rp pid fresh random now name d uid s))
               (''projects'', pid) = Some doc
             \<and> field doc ''created_by'' = Str uid
             \<and> field doc ''members'' = Arr [Str uid]
             \<and> field doc ''join_code'' = Str code
             \<and> length code = 6 \<and> set code \<subseteq> set chars"
    unfolding final using m f generateJoinCode_shape [of random] by blast
  moreover have "chars = ''ABCDEFGHIJKLMNOPQRSTUVWXYZ0123456789'' \<and> length chars = 36 \<and> distinct chars"
    by (simp add: chars_def)
  ultimately show ?thesis using r by blast
qed

theorem created_project_document_witness:
  "fst (createProject True \<lparr>server_now = 9, refuses = []\<rparr> (Answers 1) (Answers 2) (Answers 3)
          ''p1'' (\<lambda>i. replicate (Suc i) CHR ''m'') (\<lambda>i. 0) 1762000000000 ''demo'' H24 ''alice'' [])
     = Resolved 1 ''p1''
   \<and> (\<exists>doc code.
         map_of (snd (createProject True \<lparr>server_now = 9, refuses = []\<rparr> (Answers 1) (Answers 2) (Answers 3)
                  ''p1'' (\<lambda>i. replicate (Suc i) CHR ''m'') (\<lambda>i. 0) 1762000000000 ''demo'' H24 ''alice'' []))
           (''projects'', ''p1'') = Some doc
         \<and> field doc ''members'' = Arr [Str ''alice'']
         \<and> field doc ''join_code'' = Str code \<and> length code = 6 \<and> set code \<subseteq> set chars)"
proof -
  have h: "fst (createProject True \<lparr>server_now = 9, refuses = []\<rparr> (Answers 1) (Answers 2) (Answers 3)
          ''p1'' (\<lambda>i. replicate (Suc i) CHR ''m'') (\<lambda>i. 0) 1762000000000 ''demo'' H24 ''alice'' [])
     = Resolved 1 ''p1''"
    by (simp add: createProject_def commit_def acceptable_def)
  from created_project_document [OF h] h show ?thesis
    by blast
qed

lemma join_code_example: "generateJoinCode (\<lambda>i. 0) = ''AAAAAA''"
  by (simp add: generateJoinCode_def join_code_loop.simps random_index_def js_mul_def round53_def
      round_magnitude_def js_floor_def chars_def charAt_def)

section \<open>Default milestones\<close>













end
